theory Spec2Isabelle
  imports Main "HOL-Library.Sublist"
begin

section \<open>Strings as the code uses them\<close>

text \<open>
  A JavaScript string is modelled as a \<^typ>\<open>string\<close> (a list of 8-bit characters). The
  character classes of the regular expressions in the source are ASCII ranges, so they are
  written as ranges over the character codes.
\<close>

definition is_alnum :: "char \<Rightarrow> bool" where
  "is_alnum c =
     (let n = (of_char c :: nat)
      in (97 \<le> n \<and> n \<le> 122) \<or> (65 \<le> n \<and> n \<le> 90) \<or> (48 \<le> n \<and> n \<le> 57))"

text \<open>The class \<^verbatim>\<open>[a-zA-Z0-9_-]\<close> of \<^verbatim>\<open>sanitizePathComponent\<close>.\<close>

definition is_component_char :: "char \<Rightarrow> bool" where
  "is_component_char c = (is_alnum c \<or> c = CHR ''_'' \<or> c = CHR ''-'')"

text \<open>The class \<^verbatim>\<open>[a-zA-Z0-9\-_\.]\<close> that \<^verbatim>\<open>uploadDoc\<close> keeps in a path segment.\<close>

definition is_segment_char :: "char \<Rightarrow> bool" where
  "is_segment_char c = (is_component_char c \<or> c = CHR ''.'')"

text \<open>\<^verbatim>\<open>s.replace(/[^...]/g, '_')\<close>: every character outside the class becomes an underscore.\<close>

definition replace_outside :: "(char \<Rightarrow> bool) \<Rightarrow> string \<Rightarrow> string" where
  "replace_outside keep s = map (\<lambda>c. if keep c then c else CHR ''_'') s"

text \<open>\<^verbatim>\<open>s.split(sep)\<close> for a one-character separator: always at least one part.\<close>

fun split_on :: "char \<Rightarrow> string \<Rightarrow> string list" where
  "split_on sep [] = [[]]"
| "split_on sep (c # cs) =
     (if c = sep then [] # split_on sep cs
      else (case split_on sep cs of
              [] \<Rightarrow> [[c]]
            | p # ps \<Rightarrow> (c # p) # ps))"

text \<open>\<^verbatim>\<open>parts.join(sep)\<close>.\<close>

fun join_with :: "string \<Rightarrow> string list \<Rightarrow> string" where
  "join_with sep [] = []"
| "join_with sep [p] = p"
| "join_with sep (p # q # ps) = p @ sep @ join_with sep (q # ps)"

text \<open>
  \<^verbatim>\<open>s.replace(/\.[^/.]+$/, '')\<close>: the match is the last dot of the string together with
  what follows it, provided that what follows is not empty and has no slash; without
  such a match the string is returned as it is.
\<close>

definition strip_extension :: "string \<Rightarrow> string" where
  "strip_extension s =
     (let suffix = rev (takeWhile (\<lambda>c. c \<noteq> CHR ''.'') (rev s))
      in if length suffix < length s \<and> suffix \<noteq> [] \<and> CHR ''/'' \<notin> set suffix
         then take (length s - length suffix - 1) s
         else s)"

text \<open>\<^verbatim>\<open>s.split('.').pop()\<close>: what follows the last dot, the whole string when it has none.\<close>

definition last_dot_part :: "string \<Rightarrow> string" where
  "last_dot_part s = rev (takeWhile (\<lambda>c. c \<noteq> CHR ''.'') (rev s))"

text \<open>Decimal rendering of a number inside a template literal.\<close>

definition digit_char :: "nat \<Rightarrow> char" where
  "digit_char d = ''0123456789'' ! d"

fun string_of_nat :: "nat \<Rightarrow> string" where
  "string_of_nat n =
     (if n < 10 then [digit_char n]
      else string_of_nat (n div 10) @ [digit_char (n mod 10)])"

declare string_of_nat.simps [simp del]

definition string_of_int :: "int \<Rightarrow> string" where
  "string_of_int i = (if i < 0 then CHR ''-'' # string_of_nat (nat (- i)) else string_of_nat (nat i))"

text \<open>\<^verbatim>\<open>s.includes(p)\<close> and \<^verbatim>\<open>s.startsWith(p)\<close> (the latter is \<^const>\<open>prefix\<close>).\<close>

fun includes_str :: "string \<Rightarrow> string \<Rightarrow> bool" where
  "includes_str [] p = (p = [])"
| "includes_str (c # cs) p = (prefix p (c # cs) \<or> includes_str cs p)"

section \<open>Slot paths: \<^verbatim>\<open>slotBasedUpload.ts\<close>\<close>

record SlotConfig =
  maxSlots :: nat
  basePath :: string
  filePrefix :: string

definition productGallery :: SlotConfig where
  "productGallery = \<lparr> maxSlots = 8, basePath = ''portfolio'', filePrefix = ''photo'' \<rparr>"

text \<open>
  The errors the upload code raises. The constructor tells the \<^verbatim>\<open>throw\<close> statement, its
  argument is the field name or the message.
\<close>

datatype upload_error =
    NotNonEmptyString string
  | InvalidCharacters string
  | TooLong string
  | TooManyFiles nat nat
  | ValidationFailed "string list"
  | ValidationThrew string
  | InvalidFile
  | NotAuthenticated
  | StorageError string
  | UploadTimeout nat string

text \<open>
  \<^verbatim>\<open>sanitizePathComponent(input, fieldName)\<close>: the three checks in the order of the source.
\<close>

definition sanitizePathComponent :: "string \<Rightarrow> string \<Rightarrow> upload_error + string" where
  "sanitizePathComponent input fieldName =
     (if input = [] then Inl (NotNonEmptyString fieldName)
      else if \<not> list_all is_component_char input then Inl (InvalidCharacters fieldName)
      else if length input > 100 then Inl (TooLong fieldName)
      else Inr input)"

text \<open>A browser \<^verbatim>\<open>File\<close>: its name, its MIME type and its bytes.\<close>

record upload_file =
  file_name :: string
  file_type :: string
  file_bytes :: "nat list"

text \<open>
  \<^verbatim>\<open>generateCustomFilename(slug, fileType, file, index?, sanitizedOriginalName?)\<close>.
  \<^verbatim>\<open>FileUploadSecurity.getSecureExtension\<close> is not part of the sources at hand; it is the
  parameter \<open>getSecureExtension\<close>, a function from the MIME type to the extension. An
  optional argument is an \<^typ>\<open>'a option\<close>; the test \<^verbatim>\<open>if (sanitizedOriginalName)\<close> also
  fails on the empty string.
\<close>

definition generateCustomFilename ::
  "(string \<Rightarrow> string) \<Rightarrow> string \<Rightarrow> string \<Rightarrow> upload_file \<Rightarrow> int option \<Rightarrow> string option
     \<Rightarrow> upload_error + string" where
  "generateCustomFilename getSecureExtension slug fileType f index sanitizedOriginalName =
     (case sanitizePathComponent slug ''slug'' of
        Inl e \<Rightarrow> Inl e
      | Inr safeSlug \<Rightarrow>
     (case sanitizePathComponent fileType ''fileType'' of
        Inl e \<Rightarrow> Inl e
      | Inr safeFileType \<Rightarrow>
        (let extension = getSecureExtension (file_type f);
             baseName =
               (case sanitizedOriginalName of
                  None \<Rightarrow> safeSlug @ ''_'' @ safeFileType
                | Some n \<Rightarrow>
                    if n = [] then safeSlug @ ''_'' @ safeFileType
                    else safeSlug @ ''_'' @ safeFileType @ ''_'' @ take 20 (strip_extension n))
         in (case index of
               Some i \<Rightarrow> Inr (baseName @ ''_'' @ string_of_int (i + 1) @ extension)
             | None \<Rightarrow> Inr (baseName @ extension)))))"

text \<open>
  \<^verbatim>\<open>generateSlotPath(config, documentId, filename, subPath?)\<close>. The test \<^verbatim>\<open>if (subPath)\<close>
  treats the empty string like an absent argument.
\<close>

definition generateSlotPath ::
  "SlotConfig \<Rightarrow> string \<Rightarrow> string \<Rightarrow> string option \<Rightarrow> upload_error + string" where
  "generateSlotPath config documentId filename subPath =
     (case sanitizePathComponent documentId ''documentId'' of
        Inl e \<Rightarrow> Inl e
      | Inr safeDocumentId \<Rightarrow>
        (let safeBasePath = basePath config
         in if subPath \<noteq> None \<and> subPath \<noteq> Some []
            then (case sanitizePathComponent (the subPath) ''subPath'' of
                    Inl e \<Rightarrow> Inl e
                  | Inr safeSubPath \<Rightarrow>
                      Inr (safeBasePath @ ''/'' @ safeDocumentId @ ''/'' @ safeSubPath @ ''/'' @ filename))
            else Inr (safeBasePath @ ''/'' @ safeDocumentId @ ''/'' @ filename)))"

text \<open>
  What the claims call a safe path component: not empty, at most 100 characters, every
  character in \<^verbatim>\<open>[A-Za-z0-9_-]\<close>.
\<close>

definition safe_component :: "string \<Rightarrow> bool" where
  "safe_component s = (s \<noteq> [] \<and> length s \<le> 100 \<and> list_all is_component_char s)"

text \<open>The opposite, in the words of the claim: empty, too long, or a character outside the class.\<close>

definition unsafe_component :: "string \<Rightarrow> bool" where
  "unsafe_component s = (s = [] \<or> 100 < length s \<or> \<not> list_all is_component_char s)"

section \<open>Uploading: \<^verbatim>\<open>uploadDoc\<close> and the slot uploaders\<close>

text \<open>
  The object storage is a map from object path to the file stored there; writing to a
  path that holds an object replaces it.
\<close>

type_synonym storage = "string \<rightharpoonup> upload_file"

text \<open>What \<^verbatim>\<open>FileUploadSecurity.validateFile\<close> resolves to.\<close>

record validation_result =
  resultIsValid :: bool
  resultErrors :: "string list"
  sanitizedName :: "string option"

text \<open>
  What the upload code takes from outside: the signed-in user (\<^verbatim>\<open>auth.currentUser\<close>, by
  uid), \<^verbatim>\<open>FileUploadSecurity\<close> (not part of the sources at hand; \<open>validateFile\<close> gives
  \<open>None\<close> when it throws), and the storage service: whether \<^verbatim>\<open>uploadBytes\<close> accepts a
  write, what \<^verbatim>\<open>getDownloadURL\<close> returns (\<open>None\<close> when it throws), and whether an upload
  to a path is still running when the timeout fires.
\<close>

record upload_env =
  currentUser :: "string option"
  validateFile :: "upload_file \<Rightarrow> validation_result option"
  getSecureExtension :: "string \<Rightarrow> string"
  uploadBytesAccepts :: "string \<Rightarrow> upload_file \<Rightarrow> bool"
  getDownloadURL :: "string \<Rightarrow> string option"
  exceedsTimeout :: "string \<Rightarrow> nat \<Rightarrow> bool"

text \<open>
  The object path \<^verbatim>\<open>uploadDoc\<close> writes to: the sanitized segments of the path it is given,
  and below them a file name made of the sanitized base name of the file, the clock value
  and the extension of the file's name.
\<close>

definition uploadDoc_fullPath :: "string \<Rightarrow> upload_file \<Rightarrow> nat \<Rightarrow> string" where
  "uploadDoc_fullPath path f timestamp =
     (let pathSegments = filter (\<lambda>segment. length segment > 0) (split_on CHR ''/'' path);
          sanitizedSegments = map (replace_outside is_segment_char) pathSegments;
          fileExtension = last_dot_part (file_name f);
          baseFileName = strip_extension (file_name f);
          sanitizedFileName = replace_outside is_component_char baseFileName;
          uniqueFileName = sanitizedFileName @ ''_'' @ string_of_nat timestamp @ ''.'' @ fileExtension;
          sanitizedPath = join_with ''/'' sanitizedSegments
      in sanitizedPath @ ''/'' @ uniqueFileName)"

text \<open>
  \<^verbatim>\<open>uploadDoc(path, file)\<close>, with the value \<open>timestamp\<close> that \<^verbatim>\<open>Date.now()\<close> returns in it.
  The first check of the source (\<^verbatim>\<open>!file || typeof file.name !== 'string'\<close>) cannot fail
  for a \<^verbatim>\<open>File\<close>.
\<close>

definition uploadDoc ::
  "upload_env \<Rightarrow> nat \<Rightarrow> string \<Rightarrow> upload_file \<Rightarrow> storage \<Rightarrow> (upload_error + string) \<times> storage" where
  "uploadDoc env timestamp path f store =
     (if currentUser env = None then (Inl NotAuthenticated, store)
      else
        (let fullPath = uploadDoc_fullPath path f timestamp
         in if \<not> uploadBytesAccepts env fullPath f then (Inl (StorageError fullPath), store)
            else (case getDownloadURL env fullPath of
                    None \<Rightarrow> (Inl (StorageError fullPath), store(fullPath \<mapsto> f))
                  | Some downloadURL \<Rightarrow> (Inr downloadURL, store(fullPath \<mapsto> f)))))"

text \<open>
  \<^verbatim>\<open>uploadSingleFileWithTimeout(file, path, timeoutMs)\<close>. When the timeout fires first the
  caller gets the timeout error; the upload itself is not cancelled.
\<close>

definition uploadSingleFileWithTimeout ::
  "upload_env \<Rightarrow> nat \<Rightarrow> upload_file \<Rightarrow> string \<Rightarrow> nat \<Rightarrow> storage
     \<Rightarrow> (upload_error + string) \<times> storage" where
  "uploadSingleFileWithTimeout env timestamp f path timeoutMs store =
     (case validateFile env f of
        None \<Rightarrow> (Inl (ValidationThrew (file_name f)), store)
      | Some validationResult \<Rightarrow>
          if \<not> resultIsValid validationResult
          then (Inl (ValidationFailed (resultErrors validationResult)), store)
          else
            (let (result, store') = uploadDoc env timestamp path f store
             in if exceedsTimeout env path timeoutMs
                then (Inl (UploadTimeout timeoutMs path), store')
                else (result, store')))"

text \<open>
  Uploads that run in parallel are modelled one after the other, in the order of the
  array; a file comes with the clock value that its \<^verbatim>\<open>uploadDoc\<close> call reads.
  \<open>upload_all\<close> is \<^verbatim>\<open>files.map(async (file, index) => ...)\<close> for the gallery and
  \<^verbatim>\<open>Promise.all\<close>: the URLs, or the error of the first upload that failed.
\<close>

type_synonym timed_file = "upload_file \<times> nat"

fun upload_all ::
  "upload_env \<Rightarrow> (nat \<Rightarrow> string) \<Rightarrow> nat \<Rightarrow> timed_file list \<Rightarrow> storage
     \<Rightarrow> (upload_error + string list) \<times> storage" where
  "upload_all env pathOf index [] store = (Inr [], store)"
| "upload_all env pathOf index ((f, timestamp) # files) store =
     (let slotNumber = index + 1;
          (result, store1) = uploadSingleFileWithTimeout env timestamp f (pathOf slotNumber) 15000 store;
          (results, store2) = upload_all env pathOf (index + 1) files store1
      in (case result of
            Inl e \<Rightarrow> (Inl e, store2)
          | Inr url \<Rightarrow> (case results of Inl e \<Rightarrow> (Inl e, store2) | Inr urls \<Rightarrow> (Inr (url # urls), store2))))"

text \<open>\<^verbatim>\<open>ProductSlotUploader.uploadGallery(files, productId, productSlug)\<close>.\<close>

definition gallery_main_path :: "string \<Rightarrow> nat \<Rightarrow> string" where
  "gallery_main_path safeProductId slotNumber =
     ''portfolio/'' @ safeProductId @ ''/gallery/main/slot_'' @ string_of_nat slotNumber @ ''.webp''"

definition gallery_thumbnail_path :: "string \<Rightarrow> nat \<Rightarrow> string" where
  "gallery_thumbnail_path safeProductId slotNumber =
     ''portfolio/'' @ safeProductId @ ''/gallery/thumbnails/slot_'' @ string_of_nat slotNumber @ ''.webp''"

definition uploadGallery ::
  "upload_env \<Rightarrow> timed_file list \<Rightarrow> string \<Rightarrow> string \<Rightarrow> storage
     \<Rightarrow> (upload_error + string list) \<times> storage" where
  "uploadGallery env files productId productSlug store =
     (case sanitizePathComponent productId ''productId'' of
        Inl e \<Rightarrow> (Inl e, store)
      | Inr safeProductId \<Rightarrow>
          (let mainFiles =
                 filter (\<lambda>(f, t). includes_str (file_name f) ''-720.webp'' \<or>
                                  \<not> includes_str (file_name f) ''-320.webp'') files;
               thumbnailFiles =
                 filter (\<lambda>(f, t). \<not> includes_str (file_name f) ''-720.webp'' \<and>
                                  includes_str (file_name f) ''-320.webp'') files;
               (mainUrls, store1) = upload_all env (gallery_main_path safeProductId) 0 mainFiles store;
               (thumbnailUrls, store2) =
                 upload_all env (gallery_thumbnail_path safeProductId) 0 thumbnailFiles store1
           in (case mainUrls of
                 Inl e \<Rightarrow> (Inl e, store2)
               | Inr urls \<Rightarrow>
                   (case thumbnailUrls of Inl e \<Rightarrow> (Inl e, store2) | Inr _ \<Rightarrow> (Inr urls, store2)))))"

text \<open>\<^verbatim>\<open>uploadToSlots\<close>: a slot of the result, and what the callback of \<^verbatim>\<open>files.map\<close> does.\<close>

record UploadSlot =
  slot_index :: nat
  slot_path :: string
  slot_filename :: string
  slot_url :: string

text \<open>An entry of the \<^verbatim>\<open>errors\<close> array: the slot number and what went wrong.\<close>

datatype slot_error = SlotValidationError nat upload_error | SlotUploadError nat upload_error

record SlotUploadResult =
  uploadedSlots :: "UploadSlot list"
  errors :: "slot_error list"

text \<open>
  What the callback does for one file: it returns \<^verbatim>\<open>null\<close> (for a \<^verbatim>\<open>null\<close> file, or after
  it has pushed an error), returns a slot, or throws.
\<close>

datatype slot_outcome = ReturnsNull | PushesError slot_error | ReturnsSlot UploadSlot | Throws upload_error

definition slot_callback ::
  "upload_env \<Rightarrow> SlotConfig \<Rightarrow> string \<Rightarrow> string \<Rightarrow> string \<Rightarrow> string option \<Rightarrow> nat
     \<Rightarrow> nat \<Rightarrow> timed_file option \<Rightarrow> storage \<Rightarrow> slot_outcome \<times> storage" where
  "slot_callback env config documentId slug fileType subPath startIndex index file store =
     (case file of
        None \<Rightarrow> (ReturnsNull, store)
      | Some (f, timestamp) \<Rightarrow>
          (case validateFile env f of
             None \<Rightarrow>
               (PushesError (SlotValidationError (startIndex + index + 1) (ValidationThrew (file_name f))),
                store)
           | Some validationResult \<Rightarrow>
               if \<not> resultIsValid validationResult
               then (PushesError (SlotValidationError (startIndex + index + 1)
                        (ValidationFailed (resultErrors validationResult))), store)
               else
                 (let slotIndex = startIndex + index + 1
                  in case generateCustomFilename (getSecureExtension env) slug fileType f
                            (Some (int index)) (sanitizedName validationResult) of
                       Inl e \<Rightarrow> (Throws e, store)
                     | Inr filename \<Rightarrow>
                         (case generateSlotPath config documentId filename subPath of
                            Inl e \<Rightarrow> (Throws e, store)
                          | Inr slotPath \<Rightarrow>
                              (case uploadSingleFileWithTimeout env timestamp f slotPath 15000 store of
                                 (Inr url, store') \<Rightarrow>
                                   (ReturnsSlot \<lparr> slot_index = slotIndex, slot_path = slotPath,
                                       slot_filename = filename, slot_url = url \<rparr>, store')
                               | (Inl e, store') \<Rightarrow>
                                   (PushesError (SlotUploadError slotIndex e), store'))))))"

fun slot_callbacks ::
  "upload_env \<Rightarrow> SlotConfig \<Rightarrow> string \<Rightarrow> string \<Rightarrow> string \<Rightarrow> string option \<Rightarrow> nat
     \<Rightarrow> nat \<Rightarrow> timed_file option list \<Rightarrow> storage \<Rightarrow> slot_outcome list \<times> storage" where
  "slot_callbacks env config documentId slug fileType subPath startIndex index [] store = ([], store)"
| "slot_callbacks env config documentId slug fileType subPath startIndex index (file # files) store =
     (let (outcome, store1) =
            slot_callback env config documentId slug fileType subPath startIndex index file store;
          (outcomes, store2) =
            slot_callbacks env config documentId slug fileType subPath startIndex (index + 1) files store1
      in (outcome # outcomes, store2))"

fun first_thrown :: "slot_outcome list \<Rightarrow> upload_error option" where
  "first_thrown [] = None"
| "first_thrown (Throws e # outcomes) = Some e"
| "first_thrown (outcome # outcomes) = first_thrown outcomes"

fun returned_slots :: "slot_outcome list \<Rightarrow> UploadSlot list" where
  "returned_slots [] = []"
| "returned_slots (ReturnsSlot slot # outcomes) = slot # returned_slots outcomes"
| "returned_slots (outcome # outcomes) = returned_slots outcomes"

fun pushed_errors :: "slot_outcome list \<Rightarrow> slot_error list" where
  "pushed_errors [] = []"
| "pushed_errors (PushesError e # outcomes) = e # pushed_errors outcomes"
| "pushed_errors (outcome # outcomes) = pushed_errors outcomes"

text \<open>
  \<^verbatim>\<open>uploadToSlots(files, config, documentId, slug, fileType, subPath?, startIndex = 0)\<close>.
  A callback that throws rejects \<^verbatim>\<open>Promise.all\<close> and with it the call. The entries of
  \<^verbatim>\<open>errors\<close> are listed in the order of the files.
\<close>

definition uploadToSlots ::
  "upload_env \<Rightarrow> timed_file option list \<Rightarrow> SlotConfig \<Rightarrow> string \<Rightarrow> string \<Rightarrow> string
     \<Rightarrow> string option \<Rightarrow> nat \<Rightarrow> storage \<Rightarrow> (upload_error + SlotUploadResult) \<times> storage" where
  "uploadToSlots env files config documentId slug fileType subPath startIndex store =
     (if length files > maxSlots config
      then (Inl (TooManyFiles (length files) (maxSlots config)), store)
      else
        (let (outcomes, store') =
               slot_callbacks env config documentId slug fileType subPath startIndex 0 files store
         in case first_thrown outcomes of
              Some e \<Rightarrow> (Inl e, store')
            | None \<Rightarrow>
                (Inr \<lparr> uploadedSlots = returned_slots outcomes, errors = pushed_errors outcomes \<rparr>,
                 store')))"

text \<open>
  The result of \<^verbatim>\<open>uploadToSlots\<close> in the words of the claim. A file validates when
  \<^verbatim>\<open>validateFile\<close> returns a valid result; its upload succeeds when a user is signed in,
  the storage accepts the write and returns a download URL, and the timeout does not
  fire. The slot expected for the file at \<open>index\<close> has the slot number
  \<open>startIndex + index + 1\<close>, the generated filename and the path made of base path,
  documentId, subPath (when given) and filename.
\<close>

definition file_validates :: "upload_env \<Rightarrow> upload_file \<Rightarrow> bool" where
  "file_validates env f = (case validateFile env f of None \<Rightarrow> False | Some r \<Rightarrow> resultIsValid r)"

definition upload_succeeds :: "upload_env \<Rightarrow> nat \<Rightarrow> upload_file \<Rightarrow> string \<Rightarrow> bool" where
  "upload_succeeds env timestamp f path =
     (currentUser env \<noteq> None \<and>
      uploadBytesAccepts env (uploadDoc_fullPath path f timestamp) f \<and>
      getDownloadURL env (uploadDoc_fullPath path f timestamp) \<noteq> None \<and>
      \<not> exceedsTimeout env path 15000)"

definition expected_filename :: "upload_env \<Rightarrow> string \<Rightarrow> string \<Rightarrow> nat \<Rightarrow> upload_file \<Rightarrow> string" where
  "expected_filename env slug fileType index f =
     slug @ ''_'' @ fileType @
     (case validateFile env f of
        None \<Rightarrow> []
      | Some r \<Rightarrow>
          (case sanitizedName r of
             None \<Rightarrow> []
           | Some n \<Rightarrow> if n = [] then [] else ''_'' @ take 20 (strip_extension n))) @
     ''_'' @ string_of_nat (index + 1) @ getSecureExtension env (file_type f)"

definition expected_path :: "SlotConfig \<Rightarrow> string \<Rightarrow> string option \<Rightarrow> string \<Rightarrow> string" where
  "expected_path config documentId subPath name =
     basePath config @ ''/'' @ documentId @
     (case subPath of None \<Rightarrow> [] | Some sp \<Rightarrow> if sp = [] then [] else ''/'' @ sp) @
     ''/'' @ name"

definition expected_slot ::
  "upload_env \<Rightarrow> SlotConfig \<Rightarrow> string \<Rightarrow> string \<Rightarrow> string \<Rightarrow> string option \<Rightarrow> nat
     \<Rightarrow> nat \<times> timed_file option \<Rightarrow> UploadSlot option" where
  "expected_slot env config documentId slug fileType subPath startIndex entry =
     (case entry of
        (index, None) \<Rightarrow> None
      | (index, Some (f, timestamp)) \<Rightarrow>
          (let name = expected_filename env slug fileType index f;
               path = expected_path config documentId subPath name
           in if file_validates env f \<and> upload_succeeds env timestamp f path
              then Some \<lparr> slot_index = startIndex + index + 1, slot_path = path,
                          slot_filename = name,
                          slot_url = the (getDownloadURL env (uploadDoc_fullPath path f timestamp)) \<rparr>
              else None))"

text \<open>The arguments from which \<^verbatim>\<open>uploadToSlots\<close> builds paths are all safe components.\<close>

definition slot_arguments_safe :: "string \<Rightarrow> string \<Rightarrow> string \<Rightarrow> string option \<Rightarrow> bool" where
  "slot_arguments_safe documentId slug fileType subPath =
     (safe_component slug \<and> safe_component fileType \<and> safe_component documentId \<and>
      (case subPath of None \<Rightarrow> True | Some sp \<Rightarrow> sp = [] \<or> safe_component sp))"

text \<open>An environment in which every file validates and every upload succeeds.\<close>

definition accepting_env :: upload_env where
  "accepting_env =
     \<lparr> currentUser = Some ''admin'',
       validateFile = (\<lambda>f. Some \<lparr> resultIsValid = True, resultErrors = [], sanitizedName = None \<rparr>),
       getSecureExtension = (\<lambda>t. ''.webp''),
       uploadBytesAccepts = (\<lambda>p f. True),
       getDownloadURL = (\<lambda>p. Some (''https://storage.example/'' @ p)),
       exceedsTimeout = (\<lambda>p t. False) \<rparr>"

text \<open>At least one entry of the array is a file that validates.\<close>

definition some_file_validates :: "upload_env \<Rightarrow> timed_file option list \<Rightarrow> bool" where
  "some_file_validates env files =
     list_ex (\<lambda>file. case file of None \<Rightarrow> False | Some (f, t) \<Rightarrow> file_validates env f) files"

section \<open>The upload rate limiter: \<^verbatim>\<open>api/admin/upload/route.ts\<close>\<close>

text \<open>
  Times are the values of \<^verbatim>\<open>Date.now()\<close>, in milliseconds. The store is the module's
  \<^verbatim>\<open>Map\<close> from key to record. The source mutates the record object it has put in
  the map, so every field update is also a store update in the model.
\<close>

record rate_record =
  count :: nat
  resetTime :: nat
  violations :: nat

type_synonym rate_store = "string \<rightharpoonup> rate_record"

record rate_result =
  success :: bool
  limit :: nat
  remaining :: nat
  reset :: nat

definition windowMs :: nat where
  "windowMs = 60 * 1000"

definition maxRequests :: nat where
  "maxRequests = 20"

definition checkUploadRateLimit :: "string \<Rightarrow> nat \<Rightarrow> rate_store \<Rightarrow> rate_result \<times> rate_store" where
  "checkUploadRateLimit key now store =
     (let \<comment> \<open>clean up expired records\<close>
          store1 = (case store key of
                      Some r \<Rightarrow> if now > resetTime r then store(key := None) else store
                    | None \<Rightarrow> store);
          \<comment> \<open>initialize new record\<close>
          store2 = (case store1 key of
                      None \<Rightarrow> store1(key \<mapsto> \<lparr> count = 0, resetTime = now + windowMs, violations = 0 \<rparr>)
                    | Some r \<Rightarrow> store1);
          record = the (store2 key)
      in if count record \<ge> maxRequests
         then
           (let r1 = record\<lparr> violations := violations record + 1 \<rparr>;
                r2 = (if violations r1 \<ge> 3
                      then r1\<lparr> resetTime := max (resetTime r1) (now + windowMs * 3) \<rparr>
                      else r1)
            in (\<lparr> success = False, limit = maxRequests, remaining = 0, reset = resetTime r2 \<rparr>,
                store2(key \<mapsto> r2)))
         else
           (let r1 = record\<lparr> count := count record + 1 \<rparr>
            in (\<lparr> success = True, limit = maxRequests, remaining = maxRequests - count r1,
                  reset = resetTime r1 \<rparr>,
                store2(key \<mapsto> r1))))"

text \<open>The \<^verbatim>\<open>setInterval\<close> callback: records five minutes past their reset time are deleted.\<close>

definition cleanupExpired :: "nat \<Rightarrow> rate_store \<Rightarrow> rate_store" where
  "cleanupExpired now store =
     (\<lambda>key. case store key of
              None \<Rightarrow> None
            | Some r \<Rightarrow> if now > resetTime r + 300000 then None else Some r)"

text \<open>
  What happens to the store over time: requests (each with its key and the time it reads)
  and runs of the cleanup callback. \<open>allowed_requests\<close> lists the requests that were
  allowed, in order.
\<close>

datatype limiter_event = Request string nat | Cleanup nat

fun event_time :: "limiter_event \<Rightarrow> nat" where
  "event_time (Request key t) = t"
| "event_time (Cleanup t) = t"

fun allowed_requests :: "rate_store \<Rightarrow> limiter_event list \<Rightarrow> (string \<times> nat) list" where
  "allowed_requests store [] = []"
| "allowed_requests store (Cleanup t # evs) = allowed_requests (cleanupExpired t store) evs"
| "allowed_requests store (Request key t # evs) =
     (let (result, store') = checkUploadRateLimit key t store
      in (if success result then [(key, t)] else []) @ allowed_requests store' evs)"

text \<open>The allowed requests of one key in the closed interval of 60 seconds that starts at \<open>T\<close>.\<close>

definition allowed_in_interval :: "string \<Rightarrow> nat \<Rightarrow> (string \<times> nat) list \<Rightarrow> nat" where
  "allowed_in_interval key T reqs =
     length (filter (\<lambda>(k, t). k = key \<and> T \<le> t \<and> t \<le> T + windowMs) reqs)"

section \<open>The upload endpoint's wrapper: \<^verbatim>\<open>secureUploadWrapper\<close>\<close>

record auth_user =
  uid :: string
  email :: string

text \<open>
  \<^verbatim>\<open>validateFirebaseToken\<close> and \<^verbatim>\<open>getClientIP\<close> belong to \<^verbatim>\<open>utils/serverAuth\<close>, which is
  not part of the sources at hand: a request carries what they return for it. The
  token check either throws, or returns \<^verbatim>\<open>null\<close>, or returns the user.
\<close>

datatype auth_outcome = AuthThrows | AuthNull | AuthUser auth_user

record upload_request =
  clientIP :: string
  auth :: auth_outcome
  contentLength :: "string option"

record http_response =
  status :: nat
  headers :: "(string \<times> string) list"
  body :: "(string \<times> string) list"

text \<open>
  The server's state: the limiter's store, and \<open>world\<close>, everything a handler can change
  (the object storage among it).
\<close>

record 'w server =
  rateStore :: rate_store
  world :: 'w

text \<open>\<^verbatim>\<open>Math.ceil(x / 1000)\<close> for an integer \<open>x\<close> of either sign.\<close>

definition ceil_seconds :: "int \<Rightarrow> int" where
  "ceil_seconds x = - ((- x) div 1000)"

definition securityCheckFailed :: http_response where
  "securityCheckFailed =
     \<lparr> status = 500, headers = [(''Content-Type'', ''application/json'')],
       body = [(''error'', ''Security check failed''),
               (''message'', ''Unable to process request due to security validation error'')] \<rparr>"

text \<open>
  \<^verbatim>\<open>secureUploadWrapper(handler, request)\<close>. \<open>now\<close> is the clock value that
  \<^verbatim>\<open>checkUploadRateLimit\<close> reads; \<open>later1\<close> and \<open>later2\<close> are the two reads of the clock
  in the 429 response. \<open>parseInt\<close> is JavaScript's (\<open>None\<close> for \<^verbatim>\<open>NaN\<close>). A handler
  returns its response, or \<open>None\<close> when it throws, and the world as it leaves it.
\<close>

definition secureUploadWrapper ::
  "(string \<Rightarrow> int option) \<Rightarrow> (upload_request \<Rightarrow> auth_user \<Rightarrow> 'w \<Rightarrow> http_response option \<times> 'w)
     \<Rightarrow> upload_request \<Rightarrow> nat \<Rightarrow> nat \<Rightarrow> nat \<Rightarrow> 'w server \<Rightarrow> http_response \<times> 'w server" where
  "secureUploadWrapper parseInt handler request now later1 later2 s =
     (let ip = clientIP request
      in case auth request of
           AuthThrows \<Rightarrow> (securityCheckFailed, s)
         | AuthNull \<Rightarrow>
             (\<lparr> status = 401, headers = [(''Content-Type'', ''application/json'')],
                body = [(''error'', ''Authentication required''),
                        (''message'', ''Please log in to access this resource'')] \<rparr>, s)
         | AuthUser user \<Rightarrow>
             (let rateLimitKey = ''upload_'' @ ip @ ''_'' @ uid user;
                  (rateLimitResult, store') = checkUploadRateLimit rateLimitKey now (rateStore s);
                  s1 = s\<lparr> rateStore := store' \<rparr>
              in if \<not> success rateLimitResult
                 then
                   (\<lparr> status = 429,
                      headers =
                        [(''Content-Type'', ''application/json''),
                         (''Retry-After'',
                            string_of_int (ceil_seconds (int (reset rateLimitResult) - int later2)))],
                      body =
                        [(''error'', ''Rate limit exceeded''),
                         (''message'', ''Too many upload requests. Please wait before trying again.''),
                         (''retryAfter'',
                            string_of_int (ceil_seconds (int (reset rateLimitResult) - int later1)))] \<rparr>,
                    s1)
                 else if (case contentLength request of
                            None \<Rightarrow> False
                          | Some cl \<Rightarrow>
                              cl \<noteq> [] \<and>
                              (case parseInt cl of None \<Rightarrow> False | Some n \<Rightarrow> n > 10 * 1024 * 1024))
                 then
                   (\<lparr> status = 413, headers = [(''Content-Type'', ''application/json'')],
                      body = [(''error'', ''File too large''),
                              (''message'', ''File size exceeds 10MB limit'')] \<rparr>,
                    s1)
                 else
                   (case handler request user (world s1) of
                      (Some response, w') \<Rightarrow> (response, s1\<lparr> world := w' \<rparr>)
                    | (None, w') \<Rightarrow> (securityCheckFailed, s1\<lparr> world := w' \<rparr>))))"

section \<open>JavaScript values\<close>

text \<open>
  The values that \<^verbatim>\<open>JSON.parse\<close> returns and that form data holds: primitives, \<^verbatim>\<open>File\<close>
  objects (by name), arrays, and plain objects as lists of key and value. A JavaScript
  number is modelled as an integer; the numbers of the code are times in seconds.
\<close>

datatype jsval =
    JUndefined
  | JNull
  | JBool bool
  | JNum int
  | JStr string
  | JFile string
  | JArr "jsval list"
  | JObj "(string \<times> jsval) list"

text \<open>The truthiness of a value in a condition.\<close>

fun truthy :: "jsval \<Rightarrow> bool" where
  "truthy JUndefined = False"
| "truthy JNull = False"
| "truthy (JBool b) = b"
| "truthy (JNum n) = (n \<noteq> 0)"
| "truthy (JStr s) = (s \<noteq> [])"
| "truthy v = True"

text \<open>
  \<^verbatim>\<open>v.key\<close> for a value that is neither \<^verbatim>\<open>null\<close> nor \<^verbatim>\<open>undefined\<close> and a key that is not a
  built-in property: the field of an object, \<^verbatim>\<open>undefined\<close> otherwise.
\<close>

fun get_prop :: "jsval \<Rightarrow> string \<Rightarrow> jsval" where
  "get_prop (JObj kvs) key = (case map_of kvs key of Some v \<Rightarrow> v | None \<Rightarrow> JUndefined)"
| "get_prop v key = JUndefined"

fun is_nullish :: "jsval \<Rightarrow> bool" where
  "is_nullish JUndefined = True"
| "is_nullish JNull = True"
| "is_nullish v = False"

fun is_number :: "jsval \<Rightarrow> bool" where
  "is_number (JNum n) = True"
| "is_number v = False"

fun is_string :: "jsval \<Rightarrow> bool" where
  "is_string (JStr s) = True"
| "is_string v = False"

text \<open>The string and the number that a value of that type holds.\<close>

fun string_of :: "jsval \<Rightarrow> string" where
  "string_of (JStr s) = s"
| "string_of v = []"

fun number_of :: "jsval \<Rightarrow> int" where
  "number_of (JNum n) = n"
| "number_of v = 0"

text \<open>\<^verbatim>\<open>typeof v === 'object'\<close>, which also holds of \<^verbatim>\<open>null\<close> and of arrays.\<close>

fun typeof_object :: "jsval \<Rightarrow> bool" where
  "typeof_object JNull = True"
| "typeof_object (JFile n) = True"
| "typeof_object (JArr xs) = True"
| "typeof_object (JObj kvs) = True"
| "typeof_object v = False"

section \<open>The request middleware: \<^verbatim>\<open>middleware.ts\<close>\<close>

record token_validation =
  isValid :: bool
  reason :: "string option"

definition invalid_token :: "string \<Rightarrow> token_validation" where
  "invalid_token why = \<lparr> isValid = False, reason = Some why \<rparr>"

text \<open>\<^verbatim>\<open>part.replace(/-/g, '+').replace(/_/g, '/')\<close>.\<close>

definition base64url_to_base64 :: "string \<Rightarrow> string" where
  "base64url_to_base64 part =
     map (\<lambda>c. if c = CHR ''_'' then CHR ''/'' else c)
       (map (\<lambda>c. if c = CHR ''-'' then CHR ''+'' else c) part)"

definition securetoken_prefix :: string where
  "securetoken_prefix = ''https://securetoken.google.com/''"

text \<open>
  \<^verbatim>\<open>validateFirebaseTokenStructure(token)\<close>. The parameter \<open>decode\<close> is the platform's
  \<^verbatim>\<open>JSON.parse(atob(s))\<close>, \<open>None\<close> when either throws. \<open>projectId\<close> is the environment
  variable \<^verbatim>\<open>NEXT_PUBLIC_FIREBASE_PROJECT_ID\<close> and \<open>nowMs\<close> the value of \<^verbatim>\<open>Date.now()\<close>.
  A \<^verbatim>\<open>TypeError\<close> (a property of \<^verbatim>\<open>null\<close>, or \<^verbatim>\<open>startsWith\<close> on a value that is not a
  string) is caught by the outer \<^verbatim>\<open>catch\<close> and gives an invalid result.
\<close>

definition validateFirebaseTokenStructure ::
  "(string \<Rightarrow> jsval option) \<Rightarrow> string option \<Rightarrow> nat \<Rightarrow> string \<Rightarrow> token_validation" where
  "validateFirebaseTokenStructure decode projectId nowMs token =
     (let parts = split_on CHR ''.'' token
      in if length parts \<noteq> 3 then invalid_token ''Invalid JWT structure - must have 3 parts''
      else case decode (base64url_to_base64 (parts ! 0)) of
        None \<Rightarrow> invalid_token ''Invalid JWT header encoding''
      | Some header \<Rightarrow>
      if is_nullish header then invalid_token ''Token validation error''
      else if get_prop header ''alg'' \<noteq> JStr ''RS256''
      then invalid_token ''Invalid algorithm - Firebase uses RS256''
      else if \<not> truthy (get_prop header ''kid'') \<or> \<not> is_string (get_prop header ''kid'') \<or>
              length (string_of (get_prop header ''kid'')) < 10
      then invalid_token ''Missing or invalid key ID (kid)''
      else case decode (base64url_to_base64 (parts ! 1)) of
        None \<Rightarrow> invalid_token ''Invalid JWT payload encoding''
      | Some payload \<Rightarrow>
      if is_nullish payload then invalid_token ''Token validation error''
      else if \<not> truthy (get_prop payload ''iss'')
      then invalid_token ''Invalid issuer - must be Firebase securetoken''
      else if \<not> is_string (get_prop payload ''iss'')
      then invalid_token ''Token validation error''
      else if \<not> prefix securetoken_prefix (string_of (get_prop payload ''iss''))
      then invalid_token ''Invalid issuer - must be Firebase securetoken''
      else if \<not> truthy (get_prop payload ''aud'') \<or> \<not> is_string (get_prop payload ''aud'') \<or>
              length (string_of (get_prop payload ''aud'')) < 3
      then invalid_token ''Missing or invalid audience (project ID)''
      else if \<not> truthy (get_prop payload ''sub'') \<or> \<not> is_string (get_prop payload ''sub'') \<or>
              length (string_of (get_prop payload ''sub'')) < 10
      then invalid_token ''Missing or invalid subject (user ID)''
      else if \<not> truthy (get_prop payload ''exp'') \<or> \<not> truthy (get_prop payload ''iat'') \<or>
              \<not> is_number (get_prop payload ''exp'') \<or> \<not> is_number (get_prop payload ''iat'')
      then invalid_token ''Missing or invalid expiry/issued times''
      else
        (let now = int (nowMs div 1000)
         in if number_of (get_prop payload ''exp'') \<le> now then invalid_token ''Token has expired''
         else if number_of (get_prop payload ''iat'') > now + 300
         then invalid_token ''Token issued in future (clock skew)''
         else if now - number_of (get_prop payload ''iat'') > 3600
         then invalid_token ''Token is too old (>1 hour)''
         else if projectId \<noteq> None \<and> projectId \<noteq> Some [] \<and>
                 get_prop payload ''iss'' \<noteq> JStr (securetoken_prefix @ the projectId)
         then invalid_token ''Token issuer does not match project''
         else if projectId \<noteq> None \<and> projectId \<noteq> Some [] \<and>
                 get_prop payload ''aud'' \<noteq> JStr (the projectId)
         then invalid_token ''Token audience does not match project''
         else if truthy (get_prop payload ''firebase'') \<and>
                 \<not> typeof_object (get_prop payload ''firebase'')
         then invalid_token ''Invalid firebase claims structure''
         else if truthy (get_prop payload ''auth_time'') \<and>
                 (\<not> is_number (get_prop payload ''auth_time'') \<or>
                  number_of (get_prop payload ''auth_time'') > now)
         then invalid_token ''Invalid authentication time''
         else \<lparr> isValid = True, reason = None \<rparr>))"

text \<open>The environment of the middleware: \<^verbatim>\<open>NODE_ENV === 'production'\<close> and the project id.\<close>

record environment =
  production :: bool
  projectId :: "string option"

definition contentSecurityPolicy :: string where
  "contentSecurityPolicy = join_with ''; ''
     [''default-src 'self'' @ [CHR 0x27],
      ''script-src 'self' 'unsafe-inline' 'unsafe-eval' https://www.googletagmanager.com https://www.google-analytics.com https://www.gstatic.com'',
      ''style-src 'self' 'unsafe-inline' https://fonts.googleapis.com'',
      ''img-src 'self' data: blob: https: http: https://res.cloudinary.com https://firebasestorage.googleapis.com'',
      ''font-src 'self' data: https://fonts.gstatic.com'',
      ''connect-src 'self' https://*.googleapis.com https://*.firebaseapp.com https://*.cloudfunctions.net https://firebaseinstallations.googleapis.com https://res.cloudinary.com https://www.google-analytics.com https://analytics.google.com wss: ws: http://localhost:* https://localhost:*'',
      ''media-src 'self' https: data:'',
      ''object-src 'none'' @ [CHR 0x27],
      ''base-uri 'self'' @ [CHR 0x27],
      ''form-action 'self'' @ [CHR 0x27],
      ''frame-ancestors 'self'' @ [CHR 0x27],
      ''worker-src 'self' blob:'',
      ''manifest-src 'self'' @ [CHR 0x27]]"

text \<open>
  \<^verbatim>\<open>securityHeaders\<close>. The two branches of the Content-Security-Policy in the source are
  the same list of directives.
\<close>

definition securityHeaders :: "environment \<Rightarrow> (string \<times> string) list" where
  "securityHeaders env =
     [(''X-DNS-Prefetch-Control'', ''on''),
      (''X-Content-Type-Options'', ''nosniff''),
      (''X-Frame-Options'', ''SAMEORIGIN''),
      (''X-XSS-Protection'', ''1; mode=block''),
      (''Referrer-Policy'', ''strict-origin-when-cross-origin''),
      (''Permissions-Policy'', ''camera=(), microphone=(), geolocation=(), interest-cohort=()''),
      (''Content-Security-Policy'',
         if production env then contentSecurityPolicy else contentSecurityPolicy)]"

record request =
  pathname :: string
  http_method :: string
  origin :: "string option"
  userAgent :: "string option"
  cookies :: "string \<rightharpoonup> string"

text \<open>
  What the middleware returns: a response with a body, a redirect, or
  \<^verbatim>\<open>NextResponse.next()\<close>, which lets the request through to the route. The target of the
  redirect \<^verbatim>\<open>new URL('/auth', request.url)\<close> is modelled by its path.
\<close>

datatype response_kind = Body "string option" | RedirectTo string | PassThrough

record mw_response =
  kind :: response_kind
  mw_status :: nat
  mw_headers :: "(string \<times> string) list"

text \<open>\<^verbatim>\<open>response.headers.set(key, value)\<close>.\<close>

fun set_header :: "string \<Rightarrow> string \<Rightarrow> (string \<times> string) list \<Rightarrow> (string \<times> string) list" where
  "set_header key v [] = [(key, v)]"
| "set_header key v ((k, w) # hs) =
     (if k = key then (k, v) # hs else (k, w) # set_header key v hs)"

text \<open>\<^verbatim>\<open>s.toLowerCase()\<close> on ASCII letters.\<close>

definition toLowerCase :: "string \<Rightarrow> string" where
  "toLowerCase s =
     map (\<lambda>c. if 65 \<le> (of_char c :: nat) \<and> (of_char c :: nat) \<le> 90
              then char_of ((of_char c :: nat) + 32) else c) s"

definition suspiciousBots :: "string list" where
  "suspiciousBots =
     [''semrush'', ''ahrefs'', ''mj12bot'', ''dotbot'', ''seznambot'',
      ''yandexbot'', ''bingbot'', ''slurp'', ''facebookexternalhit'',
      ''crawler'', ''spider'', ''scraper'', ''wget'', ''curl'']"

definition FIREBASE_TOKEN_COOKIE :: string where
  "FIREBASE_TOKEN_COOKIE = ''firebaseToken''"

definition allowedOrigins :: "environment \<Rightarrow> string list" where
  "allowedOrigins env =
     (if production env
      then [''https://consortdigital.com'', ''https://www.consortdigital.com'']
      else [''http://localhost:3000'', ''https://localhost:3000''])"

text \<open>
  \<^verbatim>\<open>allowedOrigins.includes(origin || '') ? origin! : 'null'\<close>, the value of the
  Access-Control-Allow-Origin header.
\<close>

definition corsOrigin :: "environment \<Rightarrow> string option \<Rightarrow> string" where
  "corsOrigin env org =
     (let given = (case org of None \<Rightarrow> [] | Some v \<Rightarrow> v)
      in if given \<in> set (allowedOrigins env) then given else ''null'')"

text \<open>The constant \<^verbatim>\<open>isSuspiciousBot\<close> that the middleware computes from the user agent.\<close>

definition isSuspiciousBot :: "request \<Rightarrow> bool" where
  "isSuspiciousBot request =
     (let agent = (case userAgent request of None \<Rightarrow> [] | Some a \<Rightarrow> a)
      in list_ex (\<lambda>bot. includes_str (toLowerCase agent) (toLowerCase bot)) suspiciousBots)"

text \<open>\<^verbatim>\<open>middleware(request)\<close>, with the clock value it reads when it validates a token.\<close>

definition middleware ::
  "(string \<Rightarrow> jsval option) \<Rightarrow> environment \<Rightarrow> nat \<Rightarrow> request \<Rightarrow> mw_response" where
  "middleware decode env nowMs request =
     (let path = pathname request;
          firebaseToken = cookies request FIREBASE_TOKEN_COOKIE
      in if isSuspiciousBot request \<and> \<not> prefix ''/api/'' path \<and> production env
         then \<lparr> kind = Body (Some ''Access Denied''), mw_status = 403, mw_headers = [] \<rparr>
         else if prefix ''/admin'' path \<and> \<not> prefix ''/api/admin'' path \<and>
                 (firebaseToken = None \<or> firebaseToken = Some [])
         then \<lparr> kind = RedirectTo ''/auth'', mw_status = 307,
                mw_headers = [(''Location'', ''/auth'')] \<rparr>
         else if prefix ''/admin'' path \<and> \<not> prefix ''/api/admin'' path \<and>
                 \<not> isValid (validateFirebaseTokenStructure decode (projectId env) nowMs
                              (the firebaseToken))
         then \<lparr> kind = RedirectTo ''/auth'', mw_status = 307,
                mw_headers = [(''Location'', ''/auth'')] \<rparr>
         else if prefix ''/api/admin/'' path
         then
           (if http_method request = ''OPTIONS''
            then \<lparr> kind = Body None, mw_status = 200,
                   mw_headers = securityHeaders env @
                     [(''Access-Control-Allow-Origin'', corsOrigin env (origin request)),
                      (''Access-Control-Allow-Methods'', ''POST, GET, OPTIONS''),
                      (''Access-Control-Allow-Headers'', ''Content-Type, Authorization, Cookie''),
                      (''Access-Control-Allow-Credentials'', ''true''),
                      (''Access-Control-Max-Age'', ''3600''),
                      (''Vary'', ''Origin'')] \<rparr>
            else \<lparr> kind = PassThrough, mw_status = 200,
                   mw_headers =
                     set_header ''Access-Control-Allow-Credentials'' ''true''
                       (set_header ''Access-Control-Allow-Origin'' (corsOrigin env (origin request))
                          (fold (\<lambda>(key, v). set_header key v) (securityHeaders env) [])) \<rparr>)
         else if prefix ''/api/auth/'' path \<or> prefix ''/api/public/'' path
         then
           (if http_method request = ''OPTIONS''
            then \<lparr> kind = Body None, mw_status = 200,
                   mw_headers = securityHeaders env @
                     [(''Access-Control-Allow-Origin'', corsOrigin env (origin request)),
                      (''Access-Control-Allow-Methods'', ''GET, POST, OPTIONS''),
                      (''Access-Control-Allow-Headers'', ''Content-Type, Authorization''),
                      (''Access-Control-Allow-Credentials'', ''true''),
                      (''Access-Control-Max-Age'', ''3600''),
                      (''Vary'', ''Origin'')] \<rparr>
            else \<lparr> kind = PassThrough, mw_status = 200,
                   mw_headers =
                     set_header ''Access-Control-Allow-Credentials'' ''true''
                       (set_header ''Access-Control-Allow-Origin'' (corsOrigin env (origin request))
                          (fold (\<lambda>(key, v). set_header key v) (securityHeaders env) [])) \<rparr>)
         else \<lparr> kind = PassThrough, mw_status = 200,
                mw_headers = fold (\<lambda>(key, v). set_header key v) (securityHeaders env) [] \<rparr>)"

text \<open>
  The structure check in the words of the claim, as one conjunction. A token passes when
  it has exactly three parts separated by dots, its first two parts decode, and header and
  payload meet the conditions below; \<open>now\<close> is the time in seconds.
\<close>

definition string_at_least :: "nat \<Rightarrow> jsval \<Rightarrow> bool" where
  "string_at_least n v = (case v of JStr s \<Rightarrow> n \<le> length s | _ \<Rightarrow> False)"

definition nonzero_number :: "jsval \<Rightarrow> bool" where
  "nonzero_number v = (case v of JNum n \<Rightarrow> n \<noteq> 0 | _ \<Rightarrow> False)"

definition header_ok :: "jsval \<Rightarrow> bool" where
  "header_ok header =
     (get_prop header ''alg'' = JStr ''RS256'' \<and> string_at_least 10 (get_prop header ''kid''))"

definition payload_ok :: "string option \<Rightarrow> int \<Rightarrow> jsval \<Rightarrow> bool" where
  "payload_ok project now payload =
     (let iss = get_prop payload ''iss''; aud = get_prop payload ''aud'';
          sub = get_prop payload ''sub''; exp = get_prop payload ''exp'';
          iat = get_prop payload ''iat''; firebase = get_prop payload ''firebase'';
          auth_time = get_prop payload ''auth_time''
      in is_string iss \<and> prefix securetoken_prefix (string_of iss) \<and>
         string_at_least 3 aud \<and> string_at_least 10 sub \<and>
         nonzero_number exp \<and> nonzero_number iat \<and>
         now < number_of exp \<and> number_of iat \<le> now + 300 \<and> now - number_of iat \<le> 3600 \<and>
         (case project of
            None \<Rightarrow> True
          | Some pid \<Rightarrow> pid = [] \<or> (iss = JStr (securetoken_prefix @ pid) \<and> aud = JStr pid)) \<and>
         (if truthy firebase then typeof_object firebase else True) \<and>
         (if truthy auth_time then is_number auth_time \<and> number_of auth_time \<le> now else True))"

definition jwt_structure_ok :: "(string \<Rightarrow> jsval option) \<Rightarrow> string option \<Rightarrow> nat \<Rightarrow> string \<Rightarrow> bool" where
  "jwt_structure_ok decode project nowMs token =
     (case split_on CHR ''.'' token of
        [h, p, sg] \<Rightarrow>
          (case decode (base64url_to_base64 h) of
             None \<Rightarrow> False
           | Some header \<Rightarrow>
               (case decode (base64url_to_base64 p) of
                  None \<Rightarrow> False
                | Some payload \<Rightarrow>
                    header_ok header \<and> payload_ok project (int (nowMs div 1000)) payload))
      | _ \<Rightarrow> False)"

section \<open>Stripping files from form data: \<^verbatim>\<open>removeFileObjects\<close>\<close>

text \<open>
  \<^verbatim>\<open>value instanceof File\<close>, \<^verbatim>\<open>Array.isArray(value)\<close>, the elements of an array, and the own
  enumerable properties that the spread \<^verbatim>\<open>{ ...obj }\<close> copies: the fields of an object, the
  elements of an array under their indexes, none for a \<^verbatim>\<open>File\<close>.
\<close>

fun is_file :: "jsval \<Rightarrow> bool" where
  "is_file (JFile n) = True"
| "is_file v = False"

fun is_array :: "jsval \<Rightarrow> bool" where
  "is_array (JArr xs) = True"
| "is_array v = False"

fun array_items :: "jsval \<Rightarrow> jsval list" where
  "array_items (JArr xs) = xs"
| "array_items v = []"

fun own_props :: "jsval \<Rightarrow> (string \<times> jsval) list" where
  "own_props (JObj kvs) = kvs"
| "own_props (JArr xs) = zip (map string_of_nat [0..<length xs]) xs"
| "own_props v = []"

text \<open>A property of a value and an element of an array are smaller than the value.\<close>

lemma own_props_size: "(k, v) \<in> set (own_props obj) \<Longrightarrow> size v < size obj"
proof (cases obj)
  case (JArr xs)
  assume "(k, v) \<in> set (own_props obj)"
  with JArr have "v \<in> set xs" by (auto dest: set_zip_rightD)
  then have "size v \<le> size_list size xs" by (simp add: size_list_estimation')
  with JArr show ?thesis by simp
next
  case (JObj kvs)
  assume "(k, v) \<in> set (own_props obj)"
  with JObj have "(k, v) \<in> set kvs" by simp
  then have "size_prod (\<lambda>_. 0) size (k, v) \<le> size_list (size_prod (\<lambda>_. 0) size) kvs"
    by (simp add: size_list_estimation')
  with JObj show ?thesis by simp
qed auto

lemma array_items_size: "item \<in> set (array_items v) \<Longrightarrow> size item < size v"
  by (cases v) (auto simp: less_Suc_eq_le size_list_estimation')

text \<open>
  \<^verbatim>\<open>removeFileObjects(obj)\<close>: the clone of \<open>obj\<close> after the loop over its keys. An entry
  contributes nothing when its value is a \<^verbatim>\<open>File\<close> (\<^verbatim>\<open>delete clone[key]\<close>), its mapped and
  filtered array when the value is an array, the recursive result when the value is another
  object, and itself otherwise.
\<close>

function removeFileObjects :: "jsval \<Rightarrow> jsval" where
  "removeFileObjects obj =
     JObj (concat (map
       (\<lambda>entry.
          let key = fst entry; value = snd entry
          in if is_file value then []
             else if is_array value
             then [(key, JArr (filter (\<lambda>item. \<not> is_file item)
                     (map (\<lambda>item. if typeof_object item \<and> item \<noteq> JNull \<and> \<not> is_file item
                                   then removeFileObjects item else item)
                        (array_items value))))]
             else if typeof_object value \<and> value \<noteq> JNull
             then [(key, removeFileObjects value)]
             else [(key, value)])
       (own_props obj)))"
  by pat_completeness auto
termination
proof (relation "measure size")
  show "wf (measure size)" by simp
next
  fix obj entry x xa item
  assume "entry \<in> set (own_props obj)" "x = fst entry" "xa = snd entry"
    "\<not> is_file xa" "is_array xa" "item \<in> set (array_items xa)"
  then show "(item, obj) \<in> measure size"
    using own_props_size [of "fst entry" "snd entry" obj] array_items_size [of item "snd entry"]
    by simp
next
  fix obj entry x xa
  assume "entry \<in> set (own_props obj)" "x = fst entry" "xa = snd entry"
  then show "(xa, obj) \<in> measure size"
    using own_props_size [of "fst entry" "snd entry" obj] by simp
qed


declare removeFileObjects.simps [simp del]








text \<open>The three parts of the loop body, by name.\<close>

definition cleaned_item :: "jsval \<Rightarrow> jsval" where
  "cleaned_item item =
     (if typeof_object item \<and> item \<noteq> JNull \<and> \<not> is_file item then removeFileObjects item else item)"

definition cleaned_value :: "jsval \<Rightarrow> jsval" where
  "cleaned_value v =
     (if is_array v
      then JArr (filter (\<lambda>item. \<not> is_file item) (map cleaned_item (array_items v)))
      else if typeof_object v \<and> v \<noteq> JNull then removeFileObjects v
      else v)"





section \<open>Path components\<close>

lemma sanitizePathComponent_Inr:
  "sanitizePathComponent s fieldName = Inr r \<longleftrightarrow> r = s \<and> safe_component s"
  by (auto simp: sanitizePathComponent_def safe_component_def)

lemma sanitizePathComponent_isl:
  "isl (sanitizePathComponent s fieldName) \<longleftrightarrow> \<not> safe_component s"
  by (auto simp: sanitizePathComponent_def safe_component_def)

lemma safe_component_no_separator:
  "safe_component s \<Longrightarrow> CHR ''/'' \<notin> set s \<and> CHR ''.'' \<notin> set s"
  by (auto simp: safe_component_def list_all_iff is_component_char_def is_alnum_def)

lemma unsafe_component_iff: "unsafe_component s \<longleftrightarrow> \<not> safe_component s"
  by (auto simp: unsafe_component_def safe_component_def)

lemma generateSlotPath_isl:
  "isl (generateSlotPath cfg documentId filename subPath) \<longleftrightarrow>
     \<not> safe_component documentId \<or>
     (subPath \<noteq> None \<and> subPath \<noteq> Some [] \<and> \<not> safe_component (the subPath))"
proof (cases "sanitizePathComponent documentId ''documentId''")
  case (Inl e)
  then have "\<not> safe_component documentId"
    using sanitizePathComponent_isl [of documentId "''documentId''"] by simp
  with Inl show ?thesis by (simp add: generateSlotPath_def)
next
  case (Inr d)
  then have d: "safe_component documentId"
    by (simp add: sanitizePathComponent_Inr)
  show ?thesis
  proof (cases "subPath \<noteq> None \<and> subPath \<noteq> Some []")
    case True
    then show ?thesis
      using Inr d sanitizePathComponent_isl [of "the subPath" "''subPath''"]
      by (cases "sanitizePathComponent (the subPath) ''subPath''")
        (simp_all add: generateSlotPath_def)
  next
    case False
    then show ?thesis using Inr d by (auto simp: generateSlotPath_def)
  qed
qed

lemma generateSlotPath_Inr:
  assumes "generateSlotPath cfg documentId filename subPath = Inr p"
  shows "safe_component documentId \<and>
     (if subPath = None \<or> subPath = Some []
      then p = basePath cfg @ ''/'' @ documentId @ ''/'' @ filename
      else safe_component (the subPath) \<and>
           p = basePath cfg @ ''/'' @ documentId @ ''/'' @ the subPath @ ''/'' @ filename)"
  using assms
  by (auto simp: generateSlotPath_def sanitizePathComponent_Inr split: sum.splits if_splits)

lemma generateCustomFilename_isl:
  "isl (generateCustomFilename ext slug fileType f idx orig) \<longleftrightarrow>
     \<not> safe_component slug \<or> \<not> safe_component fileType"
proof (cases "sanitizePathComponent slug ''slug''")
  case (Inl e)
  then have "\<not> safe_component slug"
    using sanitizePathComponent_isl [of slug "''slug''"] by simp
  with Inl show ?thesis by (simp add: generateCustomFilename_def)
next
  case slug: (Inr a)
  then have a: "safe_component slug" by (simp add: sanitizePathComponent_Inr)
  show ?thesis
  proof (cases "sanitizePathComponent fileType ''fileType''")
    case (Inl e)
    then have "\<not> safe_component fileType"
      using sanitizePathComponent_isl [of fileType "''fileType''"] by simp
    with Inl slug show ?thesis by (simp add: generateCustomFilename_def)
  next
    case (Inr b)
    then have "safe_component fileType" by (simp add: sanitizePathComponent_Inr)
    with Inr slug a show ?thesis
      by (simp add: generateCustomFilename_def Let_def split: option.splits)
  qed
qed

lemma generateCustomFilename_Inr:
  assumes "generateCustomFilename ext slug fileType f idx orig = Inr n"
  shows "safe_component slug \<and> safe_component fileType \<and> prefix (slug @ ''_'' @ fileType) n"
  using assms
  by (auto simp: generateCustomFilename_def sanitizePathComponent_Inr Let_def
      split: sum.splits option.splits if_splits)

text \<open>
  C8 (as amended). \<^verbatim>\<open>generateSlotPath\<close> throws for every documentId, and for every subPath
  that is not the empty string, that is empty, longer than 100 characters or has a
  character outside \<^verbatim>\<open>[A-Za-z0-9_-]\<close>; \<^verbatim>\<open>generateCustomFilename\<close> throws for every such
  slug or fileType; there is no other error. An empty subPath is taken as absent: the
  result is the one without subPath, a path whenever the documentId is safe. Every path
  returned is the configured base path, the documentId, the subPath when a non-empty one
  is given, and the filename argument, joined by slashes, where documentId and subPath
  are safe components and so hold neither a slash nor a dot; every filename returned
  starts with the safe slug, an underscore and the safe fileType. No condition is put on
  the characters of the filename argument or of the sanitized original name.
\<close>

theorem C8_unsafe_components_rejected:
  "(unsafe_component documentId \<longrightarrow> isl (generateSlotPath cfg documentId filename subPath)) \<and>
   (sp \<noteq> [] \<and> unsafe_component sp \<longrightarrow> isl (generateSlotPath cfg documentId filename (Some sp))) \<and>
   (unsafe_component slug \<or> unsafe_component fileType \<longrightarrow>
      isl (generateCustomFilename ext slug fileType f idx orig)) \<and>
   (generateSlotPath cfg documentId filename subPath = Inr p \<longrightarrow>
      safe_component documentId \<and> CHR ''/'' \<notin> set documentId \<and> CHR ''.'' \<notin> set documentId \<and>
      (if subPath = None \<or> subPath = Some []
       then p = basePath cfg @ ''/'' @ documentId @ ''/'' @ filename
       else safe_component (the subPath) \<and>
            CHR ''/'' \<notin> set (the subPath) \<and> CHR ''.'' \<notin> set (the subPath) \<and>
            p = basePath cfg @ ''/'' @ documentId @ ''/'' @ the subPath @ ''/'' @ filename)) \<and>
   (generateCustomFilename ext slug fileType f idx orig = Inr n \<longrightarrow>
      safe_component slug \<and> safe_component fileType \<and> prefix (slug @ ''_'' @ fileType) n) \<and>
   generateSlotPath cfg documentId filename (Some []) = generateSlotPath cfg documentId filename None \<and>
   (safe_component documentId \<longrightarrow>
      generateSlotPath cfg documentId filename (Some []) =
        Inr (basePath cfg @ ''/'' @ documentId @ ''/'' @ filename)) \<and>
   (safe_component documentId \<and> safe_component sp \<longrightarrow>
      generateSlotPath cfg documentId filename (Some sp) =
        Inr (basePath cfg @ ''/'' @ documentId @ ''/'' @ sp @ ''/'' @ filename)) \<and>
   (safe_component slug \<and> safe_component fileType \<longrightarrow>
      \<not> isl (generateCustomFilename ext slug fileType f idx orig))"
proof (intro conjI impI)
  assume "unsafe_component documentId"
  then show "isl (generateSlotPath cfg documentId filename subPath)"
    by (simp add: generateSlotPath_isl unsafe_component_iff)
next
  assume "sp \<noteq> [] \<and> unsafe_component sp"
  then show "isl (generateSlotPath cfg documentId filename (Some sp))"
    by (simp add: generateSlotPath_isl unsafe_component_iff)
next
  assume "unsafe_component slug \<or> unsafe_component fileType"
  then show "isl (generateCustomFilename ext slug fileType f idx orig)"
    by (simp add: generateCustomFilename_isl unsafe_component_iff)
next
  assume p: "generateSlotPath cfg documentId filename subPath = Inr p"
  note r = generateSlotPath_Inr [OF p]
  from r show "safe_component documentId" by simp
  then show "CHR ''/'' \<notin> set documentId" and "CHR ''.'' \<notin> set documentId"
    using safe_component_no_separator by blast+
  show "if subPath = None \<or> subPath = Some []
       then p = basePath cfg @ ''/'' @ documentId @ ''/'' @ filename
       else safe_component (the subPath) \<and>
            CHR ''/'' \<notin> set (the subPath) \<and> CHR ''.'' \<notin> set (the subPath) \<and>
            p = basePath cfg @ ''/'' @ documentId @ ''/'' @ the subPath @ ''/'' @ filename"
    using r safe_component_no_separator [of "the subPath"] by (simp split: if_splits)
next
  assume "generateCustomFilename ext slug fileType f idx orig = Inr n"
  from generateCustomFilename_Inr [OF this]
  show "safe_component slug" and "safe_component fileType"
    and "prefix (slug @ ''_'' @ fileType) n"
    by simp_all
next
  show "generateSlotPath cfg documentId filename (Some []) = generateSlotPath cfg documentId filename None"
    by (cases "sanitizePathComponent documentId ''documentId''")
      (simp_all add: generateSlotPath_def)
next
  assume d: "safe_component documentId"
  then have "\<not> isl (generateSlotPath cfg documentId filename (Some []))"
    by (simp add: generateSlotPath_isl)
  then obtain q where q: "generateSlotPath cfg documentId filename (Some []) = Inr q"
    by (cases "generateSlotPath cfg documentId filename (Some [])") simp_all
  from generateSlotPath_Inr [OF q] q
  show "generateSlotPath cfg documentId filename (Some []) =
        Inr (basePath cfg @ ''/'' @ documentId @ ''/'' @ filename)"
    by simp
next
  assume d: "safe_component documentId \<and> safe_component sp"
  then have ne: "sp \<noteq> []" by (auto simp: safe_component_def)
  from d ne have "\<not> isl (generateSlotPath cfg documentId filename (Some sp))"
    by (simp add: generateSlotPath_isl)
  then obtain q where q: "generateSlotPath cfg documentId filename (Some sp) = Inr q"
    by (cases "generateSlotPath cfg documentId filename (Some sp)") simp_all
  from generateSlotPath_Inr [OF q] q ne
  show "generateSlotPath cfg documentId filename (Some sp) =
        Inr (basePath cfg @ ''/'' @ documentId @ ''/'' @ sp @ ''/'' @ filename)"
    by simp
next
  assume "safe_component slug \<and> safe_component fileType"
  then show "\<not> isl (generateCustomFilename ext slug fileType f idx orig)"
    by (simp add: generateCustomFilename_isl)
qed

lemma is_component_char_simps:
  "is_component_char c \<longleftrightarrow>
     (let n = (of_char c :: nat)
      in (97 \<le> n \<and> n \<le> 122) \<or> (65 \<le> n \<and> n \<le> 90) \<or> (48 \<le> n \<and> n \<le> 57) \<or> n = 95 \<or> n = 45)"
  by (cases c) (auto simp: is_component_char_def is_alnum_def Let_def)

theorem C8_unsafe_components_rejected_witness:
  "isl (generateSlotPath productGallery ''../etc'' ''a.webp'' None) \<and>
   isl (generateSlotPath productGallery ''doc1'' ''a.webp'' (Some ''a/b'')) \<and>
   isl (generateCustomFilename (\<lambda>t. ''.webp'') ''my slug'' ''hero''
          \<lparr> file_name = ''a.webp'', file_type = ''image/webp'', file_bytes = [] \<rparr> None None) \<and>
   generateSlotPath productGallery ''doc1'' ''a.webp'' (Some ''main'') =
     Inr ''portfolio/doc1/main/a.webp'' \<and>
   generateSlotPath productGallery ''doc1'' ''a.webp'' (Some []) =
     Inr ''portfolio/doc1/a.webp'' \<and>
   generateSlotPath productGallery ''doc1'' ''a.webp'' None =
     Inr ''portfolio/doc1/a.webp'' \<and>
   safe_component ''doc1'' \<and> safe_component ''main'' \<and>
   generateCustomFilename (\<lambda>t. ''.webp'') ''radio'' ''hero''
      \<lparr> file_name = ''a.webp'', file_type = ''image/webp'', file_bytes = [] \<rparr> None None =
     Inr ''radio_hero.webp'' \<and>
   safe_component ''radio'' \<and> safe_component ''hero''"
  using
    C8_unsafe_components_rejected [where documentId = "''../etc''" and cfg = productGallery
      and filename = "''a.webp''" and subPath = None and sp = "''a/b''"
      and slug = "''my slug''" and fileType = "''hero''" and ext = "\<lambda>t. ''.webp''"
      and f = "\<lparr> file_name = ''a.webp'', file_type = ''image/webp'', file_bytes = [] \<rparr>"
      and idx = None and orig = None]
    C8_unsafe_components_rejected [where documentId = "''doc1''" and cfg = productGallery
      and filename = "''a.webp''" and subPath = "Some ''main''" and sp = "''main''"
      and slug = "''radio''" and fileType = "''hero''" and ext = "\<lambda>t. ''.webp''"
      and f = "\<lparr> file_name = ''a.webp'', file_type = ''image/webp'', file_bytes = [] \<rparr>"
      and idx = None and orig = None
      and p = "''portfolio/doc1/main/a.webp''" and n = "''radio_hero.webp''"]
  by (simp add: unsafe_component_def safe_component_def is_component_char_simps
      generateSlotPath_def generateCustomFilename_def sanitizePathComponent_def productGallery_def)

text \<open>
  Three inputs on which the claim as written fails. An empty subPath is an empty
  component and yet no error is thrown. A filename argument with slashes and dot-dot
  segments is put into the path as it is. A sanitized original name with slashes and
  dot-dot segments is put into the generated filename as it is.
\<close>

theorem C8_unchecked_inputs_counterexample:
  "unsafe_component [] \<and>
   generateSlotPath productGallery ''doc1'' ''a.webp'' (Some []) = Inr ''portfolio/doc1/a.webp'' \<and>
   generateSlotPath productGallery ''doc1'' ''../../etc/passwd'' None =
     Inr ''portfolio/doc1/../../etc/passwd'' \<and>
   generateCustomFilename (\<lambda>t. ''.webp'') ''radio'' ''hero''
      \<lparr> file_name = ''a.webp'', file_type = ''image/webp'', file_bytes = [] \<rparr> None
      (Some ''../../etc/passwd'') =
     Inr ''radio_hero_../../etc/passwd.webp''"
  by (simp add: unsafe_component_def is_component_char_simps strip_extension_def Let_def
      generateSlotPath_def generateCustomFilename_def sanitizePathComponent_def productGallery_def)


section \<open>The rate limiter is a fixed-window counter\<close>

lemma check_other_key:
  "key' \<noteq> key \<Longrightarrow> snd (checkUploadRateLimit key t st) key' = st key'"
  by (auto simp: checkUploadRateLimit_def Let_def split: option.splits)

lemma check_fresh:
  assumes "case st key of None \<Rightarrow> True | Some r \<Rightarrow> resetTime r < t"
  shows "success (fst (checkUploadRateLimit key t st)) \<and>
         snd (checkUploadRateLimit key t st) key =
           Some \<lparr> count = 1, resetTime = t + windowMs, violations = 0 \<rparr>"
  using assms
  by (auto simp: checkUploadRateLimit_def Let_def maxRequests_def split: option.splits)

lemma check_live_allowed:
  assumes "st key = Some r" "t \<le> resetTime r" "count r < maxRequests"
  shows "success (fst (checkUploadRateLimit key t st)) \<and>
         snd (checkUploadRateLimit key t st) key = Some (r\<lparr> count := count r + 1 \<rparr>)"
  using assms
  by (auto simp: checkUploadRateLimit_def Let_def split: option.splits)

lemma check_live_refused:
  assumes "st key = Some r" "t \<le> resetTime r" "maxRequests \<le> count r"
  shows "\<not> success (fst (checkUploadRateLimit key t st)) \<and>
         (\<exists>r'. snd (checkUploadRateLimit key t st) key = Some r' \<and>
               count r' = count r \<and> resetTime r \<le> resetTime r')"
  using assms
  by (auto simp: checkUploadRateLimit_def Let_def split: option.splits)

lemma allowed_in_interval_append:
  "allowed_in_interval key T (xs @ ys) = allowed_in_interval key T xs + allowed_in_interval key T ys"
  by (simp add: allowed_in_interval_def)

lemma allowed_in_interval_Nil: "allowed_in_interval key T [] = 0"
  by (simp add: allowed_in_interval_def)

lemma allowed_in_interval_Cons:
  "allowed_in_interval key T ((k, t) # xs) =
     (if k = key \<and> T \<le> t \<and> t \<le> T + windowMs then 1 else 0) + allowed_in_interval key T xs"
  by (simp add: allowed_in_interval_def)

lemma allowed_requests_Request:
  "allowed_requests st (Request k t # evs) =
     (if success (fst (checkUploadRateLimit k t st)) then [(k, t)] else []) @
     allowed_requests (snd (checkUploadRateLimit k t st)) evs"
  by (simp add: case_prod_beta Let_def)

declare allowed_requests.simps(3) [simp del]

lemma none_after_interval:
  "\<forall>e \<in> set evs. T + windowMs < event_time e \<Longrightarrow>
     allowed_in_interval key T (allowed_requests st evs) = 0"
proof (induction evs arbitrary: st)
  case Nil
  then show ?case by (simp add: allowed_in_interval_Nil)
next
  case (Cons e evs)
  then show ?case
    by (cases e)
      (simp_all add: allowed_requests_Request allowed_in_interval_append
        allowed_in_interval_Cons allowed_in_interval_Nil)
qed


lemma cleanup_other:
  "cleanupExpired t st key = (case st key of None \<Rightarrow> None
      | Some r \<Rightarrow> if t > resetTime r + 300000 then None else Some r)"
  by (simp add: cleanupExpired_def)

lemma sorted_tail_ge:
  "sorted (map event_time (e # evs)) \<Longrightarrow> \<forall>x \<in> set evs. event_time e \<le> event_time x"
  by simp

text \<open>Inside a window whose reset time lies at or after the end of the interval.\<close>

lemma within_window:
  assumes "st key = Some r" "T + windowMs \<le> resetTime r" "sorted (map event_time evs)"
  shows "allowed_in_interval key T (allowed_requests st evs) \<le> maxRequests - count r"
  using assms
proof (induction evs arbitrary: st r)
  case Nil
  then show ?case by (simp add: allowed_in_interval_Nil)
next
  case (Cons e evs)
  have srt: "sorted (map event_time evs)" using Cons.prems(3) by simp
  show ?case
  proof (cases "T + windowMs < event_time e")
    case True
    then have "\<forall>x \<in> set (e # evs). T + windowMs < event_time x"
      using Cons.prems(3) by auto
    then show ?thesis using none_after_interval by simp
  next
    case inside: False
    then have le: "event_time e \<le> resetTime r" using Cons.prems(2) by simp
    show ?thesis
    proof (cases e)
      case (Cleanup t)
      then have "cleanupExpired t st key = Some r"
        using le Cons.prems(1) by (simp add: cleanup_other)
      with Cons.IH [of "cleanupExpired t st" r] Cons.prems(2) srt
      show ?thesis using Cleanup by simp
    next
      case (Request k t)
      let ?st' = "snd (checkUploadRateLimit k t st)"
      let ?ok = "success (fst (checkUploadRateLimit k t st))"
      show ?thesis
      proof (cases "k = key")
        case False
        then have "?st' key = Some r"
          using Cons.prems(1) by (simp add: check_other_key)
        with Cons.IH [of ?st' r] Cons.prems(2) srt
        have "allowed_in_interval key T (allowed_requests ?st' evs) \<le> maxRequests - count r"
          by simp
        then show ?thesis
          using Request False
          by (simp add: allowed_requests_Request allowed_in_interval_append
              allowed_in_interval_Cons allowed_in_interval_Nil)
      next
        case True
        have tle: "t \<le> resetTime r" using le Request by simp
        have stk: "st k = Some r" using Cons.prems(1) True by simp
        show ?thesis
        proof (cases "count r < maxRequests")
          case lt: True
          from check_live_allowed [where st = st and key = k and r = r and t = t] stk tle lt
          have ok: "?ok" and st': "?st' key = Some (r\<lparr> count := count r + 1 \<rparr>)"
            using True by simp_all
          from Cons.IH [of ?st' "r\<lparr> count := count r + 1 \<rparr>"] st' srt Cons.prems(2)
          have "allowed_in_interval key T (allowed_requests ?st' evs) \<le> maxRequests - (count r + 1)"
            by simp
          then show ?thesis
            using Request ok lt True
            by (auto simp add: allowed_requests_Request allowed_in_interval_append
                allowed_in_interval_Cons)
        next
          case ge: False
          then have "maxRequests \<le> count r" by simp
          with check_live_refused [where st = st and key = k and r = r and t = t] stk tle
          obtain r' where no: "\<not> ?ok" and st': "?st' key = Some r'"
            and c: "count r' = count r" and rt: "resetTime r \<le> resetTime r'"
            using True by auto
          from Cons.IH [of ?st' r'] st' srt rt Cons.prems(2) c
          have "allowed_in_interval key T (allowed_requests ?st' evs) \<le> maxRequests - count r"
            by simp
          then show ?thesis
            using Request no
            by (simp add: allowed_requests_Request allowed_in_interval_append
                allowed_in_interval_Nil)
        qed
      qed
    qed
  qed
qed

text \<open>No live window: the next request of the key opens one, inside or after the interval.\<close>

lemma no_live_window:
  assumes "case st key of None \<Rightarrow> True | Some r \<Rightarrow> resetTime r < t0"
    and "T \<le> t0" and "\<forall>e \<in> set evs. t0 \<le> event_time e" and "sorted (map event_time evs)"
  shows "allowed_in_interval key T (allowed_requests st evs) \<le> maxRequests"
  using assms
proof (induction evs arbitrary: st)
  case Nil
  then show ?case by (simp add: allowed_in_interval_Nil)
next
  case (Cons e evs)
  have srt: "sorted (map event_time evs)" using Cons.prems(4) by simp
  have ge: "\<forall>e \<in> set evs. t0 \<le> event_time e" using Cons.prems(3) by simp
  have t0e: "t0 \<le> event_time e" using Cons.prems(3) by simp
  show ?case
  proof (cases e)
    case (Cleanup t)
    have "case cleanupExpired t st key of None \<Rightarrow> True | Some r \<Rightarrow> resetTime r < t0"
      using Cons.prems(1) by (simp add: cleanup_other split: option.splits)
    with Cons.IH [of "cleanupExpired t st"] Cons.prems(2) ge srt show ?thesis using Cleanup by simp
  next
    case (Request k t)
    let ?st' = "snd (checkUploadRateLimit k t st)"
    let ?ok = "success (fst (checkUploadRateLimit k t st))"
    show ?thesis
    proof (cases "k = key")
      case False
      then have "?st' key = st key" by (simp add: check_other_key)
      with Cons.prems(1) have "case ?st' key of None \<Rightarrow> True | Some r \<Rightarrow> resetTime r < t0"
        by simp
      with Cons.IH [of ?st'] Cons.prems(2) ge srt
      have "allowed_in_interval key T (allowed_requests ?st' evs) \<le> maxRequests" by simp
      then show ?thesis
        using Request False
        by (simp add: allowed_requests_Request allowed_in_interval_append
            allowed_in_interval_Cons allowed_in_interval_Nil)
    next
      case True
      have "case st k of None \<Rightarrow> True | Some r \<Rightarrow> resetTime r < t"
        using Cons.prems(1) t0e Request True by (auto split: option.splits)
      with check_fresh [where st = st and key = k and t = t]
      have st': "?st' key = Some \<lparr> count = 1, resetTime = t + windowMs, violations = 0 \<rparr>"
        using True by simp
      have "T + windowMs \<le> resetTime \<lparr> count = 1, resetTime = t + windowMs, violations = 0 \<rparr>"
        using Cons.prems(2) t0e Request by simp
      with within_window [where st = "?st'" and key = key and T = T and evs = evs
          and r = "\<lparr> count = 1, resetTime = t + windowMs, violations = 0 \<rparr>"]
        st' srt
      have "allowed_in_interval key T (allowed_requests ?st' evs) \<le> maxRequests - 1"
        by simp
      then show ?thesis
        using Request True
        by (auto simp add: allowed_requests_Request allowed_in_interval_append
            allowed_in_interval_Cons allowed_in_interval_Nil maxRequests_def)
    qed
  qed
qed


text \<open>A live window at the start of the interval: what it still admits, and one more window.\<close>

lemma live_window:
  assumes "st key = Some r" and "\<forall>e \<in> set evs. T \<le> event_time e"
    and "sorted (map event_time evs)"
  shows "allowed_in_interval key T (allowed_requests st evs) \<le> (maxRequests - count r) + maxRequests"
  using assms
proof (induction evs arbitrary: st r)
  case Nil
  then show ?case by (simp add: allowed_in_interval_Nil)
next
  case (Cons e evs)
  have srt: "sorted (map event_time evs)" using Cons.prems(3) by simp
  have ge: "\<forall>x \<in> set evs. T \<le> event_time x" using Cons.prems(2) by simp
  have later: "\<forall>x \<in> set evs. event_time e \<le> event_time x" using Cons.prems(3) by simp
  have Te: "T \<le> event_time e" using Cons.prems(2) by simp
  show ?case
  proof (cases e)
    case (Cleanup t)
    show ?thesis
    proof (cases "t > resetTime r + 300000")
      case True
      then have "case cleanupExpired t st key of None \<Rightarrow> True | Some r \<Rightarrow> resetTime r < t"
        using Cons.prems(1) by (simp add: cleanup_other)
      with no_live_window [where st = "cleanupExpired t st" and key = key and ?t0.0 = t
          and T = T and evs = evs] Te later srt Cleanup
      show ?thesis by simp
    next
      case False
      then have "cleanupExpired t st key = Some r"
        using Cons.prems(1) by (simp add: cleanup_other)
      with Cons.IH [of "cleanupExpired t st" r] ge srt show ?thesis using Cleanup by simp
    qed
  next
    case (Request k t)
    let ?st' = "snd (checkUploadRateLimit k t st)"
    let ?ok = "success (fst (checkUploadRateLimit k t st))"
    show ?thesis
    proof (cases "k = key")
      case False
      then have "?st' key = Some r"
        using Cons.prems(1) by (simp add: check_other_key)
      with Cons.IH [of ?st' r] ge srt
      have "allowed_in_interval key T (allowed_requests ?st' evs) \<le> (maxRequests - count r) + maxRequests"
        by simp
      then show ?thesis
        using Request False
        by (simp add: allowed_requests_Request allowed_in_interval_append
            allowed_in_interval_Cons allowed_in_interval_Nil)
    next
      case same: True
      have stk: "st k = Some r" using Cons.prems(1) same by simp
      show ?thesis
      proof (cases "resetTime r < t")
        case True
        with stk have "case st k of None \<Rightarrow> True | Some r \<Rightarrow> resetTime r < t" by simp
        with check_fresh [where st = st and key = k and t = t]
        have st': "?st' key = Some \<lparr> count = 1, resetTime = t + windowMs, violations = 0 \<rparr>"
          using same by simp
        have "T + windowMs \<le> resetTime \<lparr> count = 1, resetTime = t + windowMs, violations = 0 \<rparr>"
          using Te Request by simp
        with within_window [where st = "?st'" and key = key and T = T and evs = evs
            and r = "\<lparr> count = 1, resetTime = t + windowMs, violations = 0 \<rparr>"]
          st' srt
        have "allowed_in_interval key T (allowed_requests ?st' evs) \<le> maxRequests - 1"
          by simp
        then show ?thesis
          using Request same
          by (auto simp add: allowed_requests_Request allowed_in_interval_append
              allowed_in_interval_Cons allowed_in_interval_Nil maxRequests_def)
      next
        case False
        then have tle: "t \<le> resetTime r" by simp
        show ?thesis
        proof (cases "count r < maxRequests")
          case lt: True
          from check_live_allowed [where st = st and key = k and r = r and t = t] stk tle lt
          have ok: "?ok" and st': "?st' key = Some (r\<lparr> count := count r + 1 \<rparr>)"
            using same by simp_all
          from Cons.IH [of ?st' "r\<lparr> count := count r + 1 \<rparr>"] st' srt ge
          have "allowed_in_interval key T (allowed_requests ?st' evs)
                  \<le> (maxRequests - (count r + 1)) + maxRequests"
            by simp
          then show ?thesis
            using Request ok lt same
            by (auto simp add: allowed_requests_Request allowed_in_interval_append
                allowed_in_interval_Cons)
        next
          case nlt: False
          then have "maxRequests \<le> count r" by simp
          with check_live_refused [where st = st and key = k and r = r and t = t] stk tle
          obtain r' where no: "\<not> ?ok" and st': "?st' key = Some r'"
            and c: "count r' = count r"
            using same by auto
          from Cons.IH [of ?st' r'] st' srt ge c
          have "allowed_in_interval key T (allowed_requests ?st' evs)
                  \<le> (maxRequests - count r) + maxRequests"
            by simp
          then show ?thesis
            using Request no
            by (simp add: allowed_requests_Request allowed_in_interval_append
                allowed_in_interval_Nil)
        qed
      qed
    qed
  qed
qed

lemma from_interval_start:
  assumes "\<forall>e \<in> set evs. T \<le> event_time e" and "sorted (map event_time evs)"
  shows "allowed_in_interval key T (allowed_requests st evs) \<le> 2 * maxRequests"
proof (cases "st key")
  case None
  then have "case st key of None \<Rightarrow> True | Some r \<Rightarrow> resetTime r < T" by simp
  with no_live_window [where st = st and key = key and ?t0.0 = T and T = T and evs = evs] assms
  show ?thesis by simp
next
  case (Some r)
  with live_window [where st = st and key = key and r = r and T = T and evs = evs] assms
  show ?thesis by simp
qed

lemma any_interval:
  assumes "sorted (map event_time evs)"
  shows "allowed_in_interval key T (allowed_requests st evs) \<le> 2 * maxRequests"
  using assms
proof (induction evs arbitrary: st)
  case Nil
  then show ?case by (simp add: allowed_in_interval_Nil)
next
  case (Cons e evs)
  show ?case
  proof (cases "T \<le> event_time e")
    case True
    then have "\<forall>x \<in> set (e # evs). T \<le> event_time x"
      using Cons.prems by auto
    with from_interval_start [where evs = "e # evs" and T = T and key = key and st = st] Cons.prems
    show ?thesis by simp
  next
    case False
    have srt: "sorted (map event_time evs)" using Cons.prems by simp
    show ?thesis
    proof (cases e)
      case (Cleanup t)
      with Cons.IH [of "cleanupExpired t st"] srt show ?thesis by simp
    next
      case (Request k t)
      with Cons.IH [of "snd (checkUploadRateLimit k t st)"] srt False
      show ?thesis
        by (simp add: allowed_requests_Request allowed_in_interval_append
            allowed_in_interval_Cons allowed_in_interval_Nil)
    qed
  qed
qed

lemma check_success_iff:
  "success (fst (checkUploadRateLimit key now store)) \<longleftrightarrow>
     (case store key of None \<Rightarrow> True | Some r \<Rightarrow> resetTime r < now \<or> count r < maxRequests)"
  by (auto simp: checkUploadRateLimit_def Let_def maxRequests_def split: option.splits)

lemma check_eval:
  "checkUploadRateLimit key now store =
     (case store key of
        None \<Rightarrow>
          (\<lparr> success = True, limit = 20, remaining = 19, reset = now + 60000 \<rparr>,
           store(key \<mapsto> \<lparr> count = 1, resetTime = now + 60000, violations = 0 \<rparr>))
      | Some r \<Rightarrow>
          if resetTime r < now
          then (\<lparr> success = True, limit = 20, remaining = 19, reset = now + 60000 \<rparr>,
                store(key \<mapsto> \<lparr> count = 1, resetTime = now + 60000, violations = 0 \<rparr>))
          else if 20 \<le> count r
          then (let r2 = (if 3 \<le> violations r + 1
                          then r\<lparr> violations := violations r + 1,
                                 resetTime := max (resetTime r) (now + 180000) \<rparr>
                          else r\<lparr> violations := violations r + 1 \<rparr>)
                in (\<lparr> success = False, limit = 20, remaining = 0, reset = resetTime r2 \<rparr>,
                    store(key \<mapsto> r2)))
          else (\<lparr> success = True, limit = 20, remaining = 20 - (count r + 1), reset = resetTime r \<rparr>,
                store(key \<mapsto> r\<lparr> count := count r + 1 \<rparr>)))"
  by (auto simp: checkUploadRateLimit_def Let_def maxRequests_def windowMs_def
      split: option.splits)

text \<open>
  C2 (as amended). The limiter is a fixed-window counter, not a sliding window. A request is
  allowed if and only if the key has no live record (none stored, or the stored reset time
  has passed), or its live record has counted fewer than 20 allowed requests. A request
  without a live record opens a new window: the record becomes count 1, reset time 60
  seconds after the request, no violations. An allowed request in a live window adds one
  to the count and leaves the reset time. A refused request leaves the count, adds one to
  the violations and, from the third violation on, moves the reset time to at least 180
  seconds after the request. No other key's record changes. So a window whose reset time
  is not before the end of a closed 60-second interval admits at most 20 minus its count
  requests in that interval, and for requests and cleanup runs in order of time, from any
  store, a closed interval of 60 seconds contains at most 40 allowed requests of one key.
\<close>

theorem C2_fixed_window_limiter:
  "(success (fst (checkUploadRateLimit key now store)) \<longleftrightarrow>
      (case store key of None \<Rightarrow> True | Some r \<Rightarrow> resetTime r < now \<or> count r < 20)) \<and>
   ((case store key of None \<Rightarrow> True | Some r \<Rightarrow> resetTime r < now) \<longrightarrow>
      snd (checkUploadRateLimit key now store) =
        store(key \<mapsto> \<lparr> count = 1, resetTime = now + 60000, violations = 0 \<rparr>)) \<and>
   (store key = Some r \<and> now \<le> resetTime r \<and> count r < 20 \<longrightarrow>
      snd (checkUploadRateLimit key now store) = store(key \<mapsto> r\<lparr> count := count r + 1 \<rparr>)) \<and>
   (store key = Some r \<and> now \<le> resetTime r \<and> 20 \<le> count r \<longrightarrow>
      snd (checkUploadRateLimit key now store) =
        store(key \<mapsto> r\<lparr> violations := violations r + 1,
                         resetTime := (if 3 \<le> violations r + 1
                                       then max (resetTime r) (now + 180000)
                                       else resetTime r) \<rparr>)) \<and>
   (other \<noteq> key \<longrightarrow> snd (checkUploadRateLimit key now store) other = store other) \<and>
   (store key = Some r \<and> T + 60000 \<le> resetTime r \<and> sorted (map event_time evs) \<longrightarrow>
      allowed_in_interval key T (allowed_requests store evs) \<le> 20 - count r) \<and>
   (sorted (map event_time evs) \<longrightarrow>
      allowed_in_interval key T (allowed_requests store evs) \<le> 40)"
proof (intro conjI impI)
  show "success (fst (checkUploadRateLimit key now store)) \<longleftrightarrow>
      (case store key of None \<Rightarrow> True | Some r \<Rightarrow> resetTime r < now \<or> count r < 20)"
    using check_success_iff [of key now store] unfolding maxRequests_def .
next
  assume "case store key of None \<Rightarrow> True | Some r \<Rightarrow> resetTime r < now"
  then show "snd (checkUploadRateLimit key now store) =
        store(key \<mapsto> \<lparr> count = 1, resetTime = now + 60000, violations = 0 \<rparr>)"
    by (cases "store key") (simp_all add: check_eval)
next
  assume "store key = Some r \<and> now \<le> resetTime r \<and> count r < 20"
  then show "snd (checkUploadRateLimit key now store) = store(key \<mapsto> r\<lparr> count := count r + 1 \<rparr>)"
    by (simp add: check_eval)
next
  assume "store key = Some r \<and> now \<le> resetTime r \<and> 20 \<le> count r"
  then show "snd (checkUploadRateLimit key now store) =
        store(key \<mapsto> r\<lparr> violations := violations r + 1,
                         resetTime := (if 3 \<le> violations r + 1
                                       then max (resetTime r) (now + 180000)
                                       else resetTime r) \<rparr>)"
    by (simp add: check_eval Let_def)
next
  assume "other \<noteq> key"
  then show "snd (checkUploadRateLimit key now store) other = store other"
    by (rule check_other_key)
next
  assume a: "store key = Some r \<and> T + 60000 \<le> resetTime r \<and> sorted (map event_time evs)"
  then have "T + windowMs \<le> resetTime r" by (simp add: windowMs_def)
  with within_window [where st = store and key = key and r = r and T = T and evs = evs] a
  show "allowed_in_interval key T (allowed_requests store evs) \<le> 20 - count r"
    by (simp add: maxRequests_def)
next
  assume "sorted (map event_time evs)"
  with any_interval [where evs = evs and key = key and T = T and st = store]
  show "allowed_in_interval key T (allowed_requests store evs) \<le> 40"
    by (simp add: maxRequests_def)
qed

theorem C2_fixed_window_limiter_witness:
  "snd (checkUploadRateLimit ''u'' 5 Map.empty) =
     Map.empty(''u'' \<mapsto> \<lparr> count = 1, resetTime = 60005, violations = 0 \<rparr>) \<and>
   snd (checkUploadRateLimit ''u'' 5
          (Map.empty(''u'' \<mapsto> \<lparr> count = 5, resetTime = 70000, violations = 0 \<rparr>))) =
     Map.empty(''u'' \<mapsto> \<lparr> count = 6, resetTime = 70000, violations = 0 \<rparr>) \<and>
   snd (checkUploadRateLimit ''u'' 5
          (Map.empty(''u'' \<mapsto> \<lparr> count = 20, resetTime = 70000, violations = 2 \<rparr>))) =
     Map.empty(''u'' \<mapsto> \<lparr> count = 20, resetTime = 180005, violations = 3 \<rparr>) \<and>
   snd (checkUploadRateLimit ''u'' 5 Map.empty) ''w'' = None \<and>
   sorted (map event_time [Request ''u'' 0, Cleanup 10, Request ''u'' 20]) \<and>
   allowed_in_interval ''u'' 0
     (allowed_requests (Map.empty(''u'' \<mapsto> \<lparr> count = 20, resetTime = 70000, violations = 2 \<rparr>))
        [Request ''u'' 0, Cleanup 10, Request ''u'' 20]) \<le> 0 \<and>
   allowed_in_interval ''u'' 0
     (allowed_requests Map.empty [Request ''u'' 0, Cleanup 10, Request ''u'' 20]) \<le> 40"
  using
    C2_fixed_window_limiter [where key = "''u''" and now = 5 and store = Map.empty and T = 0
      and other = "''w''" and evs = "[Request ''u'' 0, Cleanup 10, Request ''u'' 20]"]
    C2_fixed_window_limiter [where key = "''u''" and now = 5 and T = 0 and other = "''w''"
      and store = "Map.empty(''u'' \<mapsto> \<lparr> count = 5, resetTime = 70000, violations = 0 \<rparr>)"
      and r = "\<lparr> count = 5, resetTime = 70000, violations = 0 \<rparr>"
      and evs = "[Request ''u'' 0, Cleanup 10, Request ''u'' 20]"]
    C2_fixed_window_limiter [where key = "''u''" and now = 5 and T = 0 and other = "''w''"
      and store = "Map.empty(''u'' \<mapsto> \<lparr> count = 20, resetTime = 70000, violations = 2 \<rparr>)"
      and r = "\<lparr> count = 20, resetTime = 70000, violations = 2 \<rparr>"
      and evs = "[Request ''u'' 0, Cleanup 10, Request ''u'' 20]"]
  by simp

text \<open>
  Twenty-two requests of one key, all allowed: the first opens a window at time 0, nineteen
  follow at 59999 ms, and the two at 60001 ms fall in a new window. The 21 requests from
  59999 ms on lie within two milliseconds, and the last request is allowed although 20
  requests were allowed in the 60 seconds before it.
\<close>

theorem C2_sliding_window_counterexample:
  "allowed_in_interval ''u'' 59999
     (allowed_requests Map.empty [
        Request ''u'' 0, Request ''u'' 59999, Request ''u'' 59999, Request ''u'' 59999,
        Request ''u'' 59999, Request ''u'' 59999, Request ''u'' 59999, Request ''u'' 59999,
        Request ''u'' 59999, Request ''u'' 59999, Request ''u'' 59999, Request ''u'' 59999,
        Request ''u'' 59999, Request ''u'' 59999, Request ''u'' 59999, Request ''u'' 59999,
        Request ''u'' 59999, Request ''u'' 59999, Request ''u'' 59999, Request ''u'' 59999,
        Request ''u'' 60001, Request ''u'' 60001]) = 21"
  by (simp add: allowed_requests_Request check_eval allowed_in_interval_def windowMs_def)


section \<open>The rate-limited path of the upload endpoint\<close>

text \<open>
  C6. When the limiter refuses the request of an authenticated user, the wrapper answers
  with status 429 and a \<^verbatim>\<open>Retry-After\<close> header; the handler does not run, so the world
  (the object storage with it) is what it was, and the only change of state is the
  limiter's own update of its store.
\<close>

theorem C6_rate_limited_no_upload:
  assumes "auth request = AuthUser u"
    and "\<not> success (fst (checkUploadRateLimit
            (''upload_'' @ clientIP request @ ''_'' @ uid u) now (rateStore s)))"
  shows "status (fst (secureUploadWrapper parseInt handler request now later1 later2 s)) = 429 \<and>
         map_of (headers (fst (secureUploadWrapper parseInt handler request now later1 later2 s)))
           ''Retry-After'' \<noteq> None \<and>
         world (snd (secureUploadWrapper parseInt handler request now later1 later2 s)) = world s \<and>
         rateStore (snd (secureUploadWrapper parseInt handler request now later1 later2 s)) =
           snd (checkUploadRateLimit
                  (''upload_'' @ clientIP request @ ''_'' @ uid u) now (rateStore s))"
  using assms
  by (simp add: secureUploadWrapper_def Let_def case_prod_beta)

theorem C6_rate_limited_no_upload_witness:
  "\<not> success (fst (checkUploadRateLimit ''upload_10.0.0.1_alice'' 1000
       (Map.empty(''upload_10.0.0.1_alice'' \<mapsto> \<lparr> count = 20, resetTime = 5000, violations = 0 \<rparr>)))) \<and>
   status (fst (secureUploadWrapper (\<lambda>x. None)
     (\<lambda>req usr w. (Some \<lparr> status = 200, headers = [], body = [] \<rparr>, ''stored'' # w))
     \<lparr> clientIP = ''10.0.0.1'', auth = AuthUser \<lparr> uid = ''alice'', email = ''a@x.org'' \<rparr>,
       contentLength = None \<rparr>
     1000 1001 1002
     \<lparr> rateStore = Map.empty(''upload_10.0.0.1_alice'' \<mapsto>
          \<lparr> count = 20, resetTime = 5000, violations = 0 \<rparr>),
       world = [] \<rparr>)) = 429 \<and>
   world (snd (secureUploadWrapper (\<lambda>x. None)
     (\<lambda>req usr w. (Some \<lparr> status = 200, headers = [], body = [] \<rparr>, ''stored'' # w))
     \<lparr> clientIP = ''10.0.0.1'', auth = AuthUser \<lparr> uid = ''alice'', email = ''a@x.org'' \<rparr>,
       contentLength = None \<rparr>
     1000 1001 1002
     \<lparr> rateStore = Map.empty(''upload_10.0.0.1_alice'' \<mapsto>
          \<lparr> count = 20, resetTime = 5000, violations = 0 \<rparr>),
       world = [] \<rparr>)) = []"
proof -
  have refused: "\<not> success (fst (checkUploadRateLimit ''upload_10.0.0.1_alice'' 1000
       (Map.empty(''upload_10.0.0.1_alice'' \<mapsto> \<lparr> count = 20, resetTime = 5000, violations = 0 \<rparr>))))"
    by (simp add: check_eval)
  show ?thesis
    using refused
      C6_rate_limited_no_upload [where request =
          "\<lparr> clientIP = ''10.0.0.1'', auth = AuthUser \<lparr> uid = ''alice'', email = ''a@x.org'' \<rparr>,
             contentLength = None \<rparr>"
        and u = "\<lparr> uid = ''alice'', email = ''a@x.org'' \<rparr>" and now = 1000
        and s = "\<lparr> rateStore = Map.empty(''upload_10.0.0.1_alice'' \<mapsto>
                      \<lparr> count = 20, resetTime = 5000, violations = 0 \<rparr>),
                    world = [] \<rparr>"
        and parseInt = "\<lambda>x. None"
        and handler = "\<lambda>req usr w. (Some \<lparr> status = 200, headers = [], body = [] \<rparr>, ''stored'' # w)"
        and ?later1.0 = 1001 and ?later2.0 = 1002]
    by simp
qed


section \<open>The middleware\<close>



lemma map_of_set_header:
  "map_of (set_header key v hs) = (map_of hs)(key \<mapsto> v)"
  by (induction hs) (auto simp: fun_eq_iff)

lemma api_admin_path:
  assumes "prefix ''/api/admin/'' p"
  shows "prefix ''/api/'' p" and "\<not> prefix ''/admin'' p"
  using assms by (auto elim!: prefixE)

lemma api_auth_path:
  assumes "prefix ''/api/auth/'' p"
  shows "prefix ''/api/'' p" and "\<not> prefix ''/admin'' p" and "\<not> prefix ''/api/admin/'' p"
  using assms by (auto elim!: prefixE)

text \<open>
  C7. For every request that is not an OPTIONS request, to a path under \<^verbatim>\<open>/api/admin/\<close> or
  \<^verbatim>\<open>/api/auth/\<close>, the response has Access-Control-Allow-Origin set to the request's
  origin when that origin is in the allowed list (the two consortdigital.com origins in
  production, the two localhost origins otherwise) and to \<^verbatim>\<open>null\<close> for every other or
  absent origin, and Access-Control-Allow-Credentials set to \<^verbatim>\<open>true\<close>.
\<close>

theorem C7_cors_headers:
  assumes "http_method request \<noteq> ''OPTIONS''"
    and "prefix ''/api/admin/'' (pathname request) \<or> prefix ''/api/auth/'' (pathname request)"
  shows "map_of (mw_headers (middleware decode env nowMs request)) ''Access-Control-Allow-Origin'' =
           Some (case origin request of
                   None \<Rightarrow> ''null''
                 | Some given \<Rightarrow>
                     if given \<in> set (if production env
                                     then [''https://consortdigital.com'', ''https://www.consortdigital.com'']
                                     else [''http://localhost:3000'', ''https://localhost:3000''])
                     then given else ''null'') \<and>
         map_of (mw_headers (middleware decode env nowMs request)) ''Access-Control-Allow-Credentials'' =
           Some ''true''"
proof -
  have cors: "corsOrigin env (origin request) =
      (case origin request of
         None \<Rightarrow> ''null''
       | Some given \<Rightarrow>
           if given \<in> set (if production env
                           then [''https://consortdigital.com'', ''https://www.consortdigital.com'']
                           else [''http://localhost:3000'', ''https://localhost:3000''])
           then given else ''null'')"
    by (simp add: corsOrigin_def allowedOrigins_def split: option.splits)
  from assms(2) show ?thesis
  proof
    assume p: "prefix ''/api/admin/'' (pathname request)"
    show ?thesis
      using assms(1) api_admin_path [OF p] p
      by (simp add: middleware_def Let_def map_of_set_header cors [symmetric])
  next
    assume p: "prefix ''/api/auth/'' (pathname request)"
    show ?thesis
      using assms(1) api_auth_path [OF p] p
      by (simp add: middleware_def Let_def map_of_set_header cors [symmetric])
  qed
qed



lemma string_check:
  "0 < n \<Longrightarrow>
   (\<not> truthy v \<or> \<not> is_string v \<or> length (string_of v) < n) \<longleftrightarrow> \<not> string_at_least n v"
  by (cases v) (auto simp: string_at_least_def)

lemma number_check:
  "(\<not> truthy e \<or> \<not> truthy i \<or> \<not> is_number e \<or> \<not> is_number i) \<longleftrightarrow>
     \<not> (nonzero_number e \<and> nonzero_number i)"
  by (cases e; cases i) (auto simp: nonzero_number_def)

lemma isValid_if_invalid:
  "isValid (if c then invalid_token why else x) \<longleftrightarrow> \<not> c \<and> isValid x"
  by (simp add: invalid_token_def)

lemma nullish_no_props: "is_nullish v \<Longrightarrow> get_prop v key = JUndefined"
  by (cases v) auto

lemma length_three: "length xs = 3 \<longleftrightarrow> (\<exists>a b c. xs = [a, b, c])"
  by (cases xs; cases "tl xs"; cases "tl (tl xs)") (auto simp: length_Suc_conv)

lemma nullish_header: "is_nullish v \<Longrightarrow> \<not> header_ok v"
  by (simp add: header_ok_def nullish_no_props)

lemma nullish_payload: "is_nullish v \<Longrightarrow> \<not> payload_ok project now v"
  by (simp add: payload_ok_def nullish_no_props Let_def)

lemma payload_checks:
  assumes "\<not> is_nullish payload"
  shows "isValid
     (if \<not> truthy (get_prop payload ''iss'')
      then invalid_token ''Invalid issuer - must be Firebase securetoken''
      else if \<not> is_string (get_prop payload ''iss'')
      then invalid_token ''Token validation error''
      else if \<not> prefix securetoken_prefix (string_of (get_prop payload ''iss''))
      then invalid_token ''Invalid issuer - must be Firebase securetoken''
      else if \<not> truthy (get_prop payload ''aud'') \<or> \<not> is_string (get_prop payload ''aud'') \<or>
              length (string_of (get_prop payload ''aud'')) < 3
      then invalid_token ''Missing or invalid audience (project ID)''
      else if \<not> truthy (get_prop payload ''sub'') \<or> \<not> is_string (get_prop payload ''sub'') \<or>
              length (string_of (get_prop payload ''sub'')) < 10
      then invalid_token ''Missing or invalid subject (user ID)''
      else if \<not> truthy (get_prop payload ''exp'') \<or> \<not> truthy (get_prop payload ''iat'') \<or>
              \<not> is_number (get_prop payload ''exp'') \<or> \<not> is_number (get_prop payload ''iat'')
      then invalid_token ''Missing or invalid expiry/issued times''
      else
        (let now = now
         in if number_of (get_prop payload ''exp'') \<le> now then invalid_token ''Token has expired''
         else if number_of (get_prop payload ''iat'') > now + 300
         then invalid_token ''Token issued in future (clock skew)''
         else if now - number_of (get_prop payload ''iat'') > 3600
         then invalid_token ''Token is too old (>1 hour)''
         else if project \<noteq> None \<and> project \<noteq> Some [] \<and>
                 get_prop payload ''iss'' \<noteq> JStr (securetoken_prefix @ the project)
         then invalid_token ''Token issuer does not match project''
         else if project \<noteq> None \<and> project \<noteq> Some [] \<and>
                 get_prop payload ''aud'' \<noteq> JStr (the project)
         then invalid_token ''Token audience does not match project''
         else if truthy (get_prop payload ''firebase'') \<and>
                 \<not> typeof_object (get_prop payload ''firebase'')
         then invalid_token ''Invalid firebase claims structure''
         else if truthy (get_prop payload ''auth_time'') \<and>
                 (\<not> is_number (get_prop payload ''auth_time'') \<or>
                  number_of (get_prop payload ''auth_time'') > now)
         then invalid_token ''Invalid authentication time''
         else \<lparr> isValid = True, reason = None \<rparr>))
    \<longleftrightarrow> payload_ok project now payload"
proof -
  let ?iss = "get_prop payload ''iss''" and ?aud = "get_prop payload ''aud''"
    and ?sub = "get_prop payload ''sub''" and ?exp = "get_prop payload ''exp''"
    and ?iat = "get_prop payload ''iat''"
  have aud: "(\<not> truthy ?aud \<or> \<not> is_string ?aud \<or> length (string_of ?aud) < 3) \<longleftrightarrow>
      \<not> string_at_least 3 ?aud"
    by (rule string_check) simp
  have sub: "(\<not> truthy ?sub \<or> \<not> is_string ?sub \<or> length (string_of ?sub) < 10) \<longleftrightarrow>
      \<not> string_at_least 10 ?sub"
    by (rule string_check) simp
  have num: "(\<not> truthy ?exp \<or> \<not> truthy ?iat \<or> \<not> is_number ?exp \<or> \<not> is_number ?iat) \<longleftrightarrow>
      \<not> (nonzero_number ?exp \<and> nonzero_number ?iat)"
    by (rule number_check)
  have iss: "is_string ?iss \<Longrightarrow> prefix securetoken_prefix (string_of ?iss) \<Longrightarrow> truthy ?iss"
    by (cases ?iss) (auto simp: securetoken_prefix_def)
  show ?thesis
    unfolding payload_ok_def Let_def isValid_if_invalid aud sub num
    using iss by (cases project) auto
qed


lemma validate_iff_structure_ok:
  "isValid (validateFirebaseTokenStructure decode project nowMs token) \<longleftrightarrow>
     jwt_structure_ok decode project nowMs token"
proof (cases "length (split_on CHR ''.'' token) = 3")
  case False
  then have "\<not> jwt_structure_ok decode project nowMs token"
    by (auto simp: jwt_structure_ok_def split: list.splits)
  with False show ?thesis
    by (simp add: validateFirebaseTokenStructure_def invalid_token_def)
next
  case True
  then obtain h p sg where parts: "split_on CHR ''.'' token = [h, p, sg]"
    by (auto simp: length_three)
  show ?thesis
  proof (cases "decode (base64url_to_base64 h)")
    case None
    with parts show ?thesis
      by (simp add: validateFirebaseTokenStructure_def jwt_structure_ok_def invalid_token_def)
  next
    case header: (Some header)
    let ?kid = "get_prop header ''kid''"
    have kid: "(\<not> truthy ?kid \<or> \<not> is_string ?kid \<or> length (string_of ?kid) < 10) \<longleftrightarrow>
        \<not> string_at_least 10 ?kid"
      by (rule string_check) simp
    show ?thesis
    proof (cases "header_ok header")
      case False
      then have "\<not> jwt_structure_ok decode project nowMs token"
        using parts header by (simp add: jwt_structure_ok_def split: option.splits)
      moreover have "\<not> isValid (validateFirebaseTokenStructure decode project nowMs token)"
        using False parts header kid
        by (auto simp: validateFirebaseTokenStructure_def header_ok_def invalid_token_def)
      ultimately show ?thesis by simp
    next
      case hok: True
      then have hn: "\<not> is_nullish header" using nullish_header by blast
      have hc: "get_prop header ''alg'' = JStr ''RS256''"
        "\<not> (\<not> truthy ?kid \<or> \<not> is_string ?kid \<or> length (string_of ?kid) < 10)"
        using hok kid by (simp_all add: header_ok_def)
      show ?thesis
      proof (cases "decode (base64url_to_base64 p)")
        case None
        with parts header hn hc show ?thesis
          by (simp add: validateFirebaseTokenStructure_def jwt_structure_ok_def invalid_token_def)
      next
        case payload: (Some payload)
        show ?thesis
        proof (cases "is_nullish payload")
          case True
          then have "\<not> payload_ok project (int (nowMs div 1000)) payload"
            by (rule nullish_payload)
          with True parts header payload hn hc show ?thesis
            by (simp add: validateFirebaseTokenStructure_def jwt_structure_ok_def invalid_token_def)
        next
          case False
          have "jwt_structure_ok decode project nowMs token \<longleftrightarrow>
                payload_ok project (int (nowMs div 1000)) payload"
            using parts header payload hok by (simp add: jwt_structure_ok_def)
          moreover have "validateFirebaseTokenStructure decode project nowMs token =
            (if \<not> truthy (get_prop payload ''iss'')
      then invalid_token ''Invalid issuer - must be Firebase securetoken''
      else if \<not> is_string (get_prop payload ''iss'')
      then invalid_token ''Token validation error''
      else if \<not> prefix securetoken_prefix (string_of (get_prop payload ''iss''))
      then invalid_token ''Invalid issuer - must be Firebase securetoken''
      else if \<not> truthy (get_prop payload ''aud'') \<or> \<not> is_string (get_prop payload ''aud'') \<or>
              length (string_of (get_prop payload ''aud'')) < 3
      then invalid_token ''Missing or invalid audience (project ID)''
      else if \<not> truthy (get_prop payload ''sub'') \<or> \<not> is_string (get_prop payload ''sub'') \<or>
              length (string_of (get_prop payload ''sub'')) < 10
      then invalid_token ''Missing or invalid subject (user ID)''
      else if \<not> truthy (get_prop payload ''exp'') \<or> \<not> truthy (get_prop payload ''iat'') \<or>
              \<not> is_number (get_prop payload ''exp'') \<or> \<not> is_number (get_prop payload ''iat'')
      then invalid_token ''Missing or invalid expiry/issued times''
      else
        (let now = int (nowMs div 1000)
         in if number_of (get_prop payload ''exp'') \<le> now then invalid_token ''Token has expired''
         else if number_of (get_prop payload ''iat'') > now + 300
         then invalid_token ''Token issued in future (clock skew)''
         else if now - number_of (get_prop payload ''iat'') > 3600
         then invalid_token ''Token is too old (>1 hour)''
         else if project \<noteq> None \<and> project \<noteq> Some [] \<and>
                 get_prop payload ''iss'' \<noteq> JStr (securetoken_prefix @ the project)
         then invalid_token ''Token issuer does not match project''
         else if project \<noteq> None \<and> project \<noteq> Some [] \<and>
                 get_prop payload ''aud'' \<noteq> JStr (the project)
         then invalid_token ''Token audience does not match project''
         else if truthy (get_prop payload ''firebase'') \<and>
                 \<not> typeof_object (get_prop payload ''firebase'')
         then invalid_token ''Invalid firebase claims structure''
         else if truthy (get_prop payload ''auth_time'') \<and>
                 (\<not> is_number (get_prop payload ''auth_time'') \<or>
                  number_of (get_prop payload ''auth_time'') > now)
         then invalid_token ''Invalid authentication time''
         else \<lparr> isValid = True, reason = None \<rparr>))"
            unfolding validateFirebaseTokenStructure_def Let_def
            using parts header payload hn hc False by simp
          ultimately show ?thesis
            using payload_checks [OF False, where project = project and now = "int (nowMs div 1000)"]
            by simp
        qed
      qed
    qed
  qed
qed


lemma admin_page_path:
  assumes "prefix ''/admin'' p"
  shows "\<not> prefix ''/api/'' p" and "\<not> prefix ''/api/admin'' p" and "\<not> prefix ''/api/admin/'' p"
    and "\<not> prefix ''/api/auth/'' p" and "\<not> prefix ''/api/public/'' p"
  using assms by (auto elim!: prefixE)

lemma fold_securityHeaders:
  "fold (\<lambda>(key, v). set_header key v) (securityHeaders env) [] = securityHeaders env"
  by (simp add: securityHeaders_def)

text \<open>
  C5 (as amended). For every request to a path that starts with \<^verbatim>\<open>/admin\<close> and that the
  production bot filter does not block, the middleware redirects to \<^verbatim>\<open>/auth\<close> if and only
  if the token cookie is absent or empty or fails the structure check; otherwise the
  request passes through, with the security headers. The structure check is
  \<open>jwt_structure_ok\<close>: three parts, a header with \<^verbatim>\<open>alg\<close> RS256 and a \<^verbatim>\<open>kid\<close> of at least
  10 characters, an issuer that starts with the securetoken prefix (and equals prefix
  and project id, with the audience equal to the project id, when a project id is
  configured), an audience of at least 3 and a subject of at least 10 characters,
  numeric non-zero \<^verbatim>\<open>exp\<close> and \<^verbatim>\<open>iat\<close>, not expired, issued at most 300 seconds in the
  future and at most one hour ago, a \<^verbatim>\<open>firebase\<close> claim that is an object when truthy, and
  an \<^verbatim>\<open>auth_time\<close> that is a number not after now when truthy.
\<close>

theorem C5_admin_page_gate:
  assumes "prefix ''/admin'' (pathname request)"
    and "\<not> (isSuspiciousBot request \<and> production env)"
  shows "(kind (middleware decode env nowMs request) = RedirectTo ''/auth'' \<longleftrightarrow>
            (case cookies request FIREBASE_TOKEN_COOKIE of
               None \<Rightarrow> True
             | Some token \<Rightarrow> token = [] \<or> \<not> jwt_structure_ok decode (projectId env) nowMs token)) \<and>
         (if kind (middleware decode env nowMs request) = RedirectTo ''/auth''
          then mw_status (middleware decode env nowMs request) = 307
          else middleware decode env nowMs request =
                 \<lparr> kind = PassThrough, mw_status = 200, mw_headers = securityHeaders env \<rparr>)"
proof (cases "cookies request FIREBASE_TOKEN_COOKIE")
  case None
  then show ?thesis
    using assms admin_page_path [OF assms(1)]
    by (auto simp: middleware_def Let_def)
next
  case (Some token)
  show ?thesis
  proof (cases "token = [] \<or> \<not> jwt_structure_ok decode (projectId env) nowMs token")
    case True
    then show ?thesis
      using Some assms admin_page_path [OF assms(1)]
      by (auto simp: middleware_def Let_def validate_iff_structure_ok)
  next
    case False
    then show ?thesis
      using Some assms admin_page_path [OF assms(1)]
      by (auto simp: middleware_def Let_def validate_iff_structure_ok fold_securityHeaders)
  qed
qed

lemma toLowerCase_simps:
  "toLowerCase [] = []"
  "toLowerCase (c # cs) =
     (if 65 \<le> (of_char c :: nat) \<and> (of_char c :: nat) \<le> 90
      then char_of ((of_char c :: nat) + 32) else c) # toLowerCase cs"
  by (simp_all add: toLowerCase_def)

lemma curl_is_bot:
  "isSuspiciousBot \<lparr> pathname = p, http_method = m, origin = og,
      userAgent = Some ''curl/8.0'', cookies = ck \<rparr>"
  by (simp add: isSuspiciousBot_def suspiciousBots_def toLowerCase_simps)

lemma firefox_is_no_bot:
  "\<not> isSuspiciousBot \<lparr> pathname = p, http_method = m, origin = og,
      userAgent = Some ''Firefox'', cookies = ck \<rparr>"
  by (simp add: isSuspiciousBot_def suspiciousBots_def toLowerCase_simps)

theorem C5_admin_page_gate_witness:
  "prefix ''/admin'' ''/admin/products'' \<and>
   \<not> (isSuspiciousBot \<lparr> pathname = ''/admin/products'', http_method = ''GET'', origin = None,
          userAgent = Some ''Firefox'', cookies = Map.empty \<rparr> \<and>
      production \<lparr> production = True, projectId = Some ''consort'' \<rparr>) \<and>
   kind (middleware (\<lambda>s. None) \<lparr> production = True, projectId = Some ''consort'' \<rparr> 1000000
     \<lparr> pathname = ''/admin/products'', http_method = ''GET'', origin = None,
       userAgent = Some ''Firefox'', cookies = Map.empty \<rparr>) = RedirectTo ''/auth'' \<and>
   jwt_structure_ok
     (\<lambda>s. if s = ''hdr'' then Some (JObj [(''alg'', JStr ''RS256''), (''kid'', JStr ''0123456789ab'')])
          else if s = ''pay''
          then Some (JObj [(''iss'', JStr ''https://securetoken.google.com/consort''),
                 (''aud'', JStr ''consort''), (''sub'', JStr ''user-0123456789''),
                 (''exp'', JNum 2000), (''iat'', JNum 900)])
          else None)
     (Some ''consort'') 1000000 ''hdr.pay.sig'' \<and>
   middleware
     (\<lambda>s. if s = ''hdr'' then Some (JObj [(''alg'', JStr ''RS256''), (''kid'', JStr ''0123456789ab'')])
          else if s = ''pay''
          then Some (JObj [(''iss'', JStr ''https://securetoken.google.com/consort''),
                 (''aud'', JStr ''consort''), (''sub'', JStr ''user-0123456789''),
                 (''exp'', JNum 2000), (''iat'', JNum 900)])
          else None)
     \<lparr> production = True, projectId = Some ''consort'' \<rparr> 1000000
     \<lparr> pathname = ''/admin/products'', http_method = ''GET'', origin = None,
       userAgent = Some ''Firefox'',
       cookies = Map.empty(FIREBASE_TOKEN_COOKIE \<mapsto> ''hdr.pay.sig'') \<rparr> =
     \<lparr> kind = PassThrough, mw_status = 200,
       mw_headers = securityHeaders \<lparr> production = True, projectId = Some ''consort'' \<rparr> \<rparr>"
proof -
  let ?d = "\<lambda>s. if s = ''hdr'' then Some (JObj [(''alg'', JStr ''RS256''), (''kid'', JStr ''0123456789ab'')])
          else if s = ''pay''
          then Some (JObj [(''iss'', JStr ''https://securetoken.google.com/consort''),
                 (''aud'', JStr ''consort''), (''sub'', JStr ''user-0123456789''),
                 (''exp'', JNum 2000), (''iat'', JNum 900)])
          else None"
  let ?env = "\<lparr> production = True, projectId = Some ''consort'' \<rparr>"
  have ok: "jwt_structure_ok ?d (Some ''consort'') 1000000 ''hdr.pay.sig''"
    by (simp add: jwt_structure_ok_def base64url_to_base64_def header_ok_def payload_ok_def
        string_at_least_def nonzero_number_def securetoken_prefix_def)
  show ?thesis
    using ok
      firefox_is_no_bot [of "''/admin/products''" "''GET''" None Map.empty]
      firefox_is_no_bot [of "''/admin/products''" "''GET''" None
        "Map.empty(FIREBASE_TOKEN_COOKIE \<mapsto> ''hdr.pay.sig'')"]
      C5_admin_page_gate [where decode = "\<lambda>s. None" and env = ?env and nowMs = 1000000
        and request = "\<lparr> pathname = ''/admin/products'', http_method = ''GET'', origin = None,
          userAgent = Some ''Firefox'', cookies = Map.empty \<rparr>"]
      C5_admin_page_gate [where decode = ?d and env = ?env and nowMs = 1000000
        and request = "\<lparr> pathname = ''/admin/products'', http_method = ''GET'', origin = None,
          userAgent = Some ''Firefox'',
          cookies = Map.empty(FIREBASE_TOKEN_COOKIE \<mapsto> ''hdr.pay.sig'') \<rparr>"]
    by (simp split: if_splits)
qed

text \<open>
  In production, a request to an admin page from an agent on the bot list gets the 403
  response, with or without a token cookie: it is neither redirected nor passed through.
\<close>

theorem C5_bot_filter_counterexample:
  "prefix ''/admin'' ''/admin/products'' \<and>
   Map.empty FIREBASE_TOKEN_COOKIE = (None :: string option) \<and>
   middleware (\<lambda>s. None) \<lparr> production = True, projectId = None \<rparr> 0
     \<lparr> pathname = ''/admin/products'', http_method = ''GET'', origin = None,
       userAgent = Some ''curl/8.0'', cookies = Map.empty \<rparr> =
     \<lparr> kind = Body (Some ''Access Denied''), mw_status = 403, mw_headers = [] \<rparr>"
  by (simp add: middleware_def curl_is_bot)

theorem C7_cors_headers_witness:
  "''POST'' \<noteq> ''OPTIONS'' \<and> prefix ''/api/admin/'' ''/api/admin/upload'' \<and>
   map_of (mw_headers (middleware (\<lambda>s. None) \<lparr> production = True, projectId = None \<rparr> 0
     \<lparr> pathname = ''/api/admin/upload'', http_method = ''POST'',
       origin = Some ''https://consortdigital.com'', userAgent = None, cookies = Map.empty \<rparr>))
     ''Access-Control-Allow-Origin'' = Some ''https://consortdigital.com'' \<and>
   map_of (mw_headers (middleware (\<lambda>s. None) \<lparr> production = True, projectId = None \<rparr> 0
     \<lparr> pathname = ''/api/admin/upload'', http_method = ''POST'',
       origin = Some ''https://evil.example'', userAgent = None, cookies = Map.empty \<rparr>))
     ''Access-Control-Allow-Origin'' = Some ''null'' \<and>
   map_of (mw_headers (middleware (\<lambda>s. None) \<lparr> production = True, projectId = None \<rparr> 0
     \<lparr> pathname = ''/api/admin/upload'', http_method = ''POST'',
       origin = Some ''https://evil.example'', userAgent = None, cookies = Map.empty \<rparr>))
     ''Access-Control-Allow-Credentials'' = Some ''true''"
  using
    C7_cors_headers [where decode = "\<lambda>s. None" and nowMs = 0
      and env = "\<lparr> production = True, projectId = None \<rparr>"
      and request = "\<lparr> pathname = ''/api/admin/upload'', http_method = ''POST'',
        origin = Some ''https://consortdigital.com'', userAgent = None, cookies = Map.empty \<rparr>"]
    C7_cors_headers [where decode = "\<lambda>s. None" and nowMs = 0
      and env = "\<lparr> production = True, projectId = None \<rparr>"
      and request = "\<lparr> pathname = ''/api/admin/upload'', http_method = ''POST'',
        origin = Some ''https://evil.example'', userAgent = None, cookies = Map.empty \<rparr>"]
  by simp

text \<open>
  C4 at two requests. In production the request \<^verbatim>\<open>GET /\<close> of the agent \<^verbatim>\<open>curl/8.0\<close> gets
  the 403 response, and the request \<^verbatim>\<open>GET /admin\<close> without a token cookie gets the redirect
  to \<^verbatim>\<open>/auth\<close>; neither response has any of the security headers.
\<close>

theorem C4_responses_without_security_headers:
  "middleware (\<lambda>s. None) \<lparr> production = True, projectId = None \<rparr> 0
     \<lparr> pathname = ''/'', http_method = ''GET'', origin = None,
       userAgent = Some ''curl/8.0'', cookies = Map.empty \<rparr> =
     \<lparr> kind = Body (Some ''Access Denied''), mw_status = 403, mw_headers = [] \<rparr> \<and>
   middleware (\<lambda>s. None) \<lparr> production = True, projectId = None \<rparr> 0
     \<lparr> pathname = ''/admin'', http_method = ''GET'', origin = None,
       userAgent = Some ''Firefox'', cookies = Map.empty \<rparr> =
     \<lparr> kind = RedirectTo ''/auth'', mw_status = 307, mw_headers = [(''Location'', ''/auth'')] \<rparr> \<and>
   map_of [(''Location'', ''/auth'')] ''X-Content-Type-Options'' = None \<and>
   map_of (securityHeaders \<lparr> production = True, projectId = None \<rparr>) ''X-Content-Type-Options'' =
     Some ''nosniff''"
  by (simp add: middleware_def curl_is_bot firefox_is_no_bot FIREBASE_TOKEN_COOKIE_def
      securityHeaders_def)



section \<open>Slot uploads\<close>

lemma string_of_int_nat: "string_of_int (int n + 1) = string_of_nat (n + 1)"
  by (simp add: string_of_int_def nat_add_distrib)

lemma upload_result:
  assumes "file_validates env f"
  shows "fst (uploadSingleFileWithTimeout env t f path 15000 store) =
           (if upload_succeeds env t f path
            then Inr (the (getDownloadURL env (uploadDoc_fullPath path f t)))
            else if exceedsTimeout env path 15000 then Inl (UploadTimeout 15000 path)
            else if currentUser env = None then Inl NotAuthenticated
            else Inl (StorageError (uploadDoc_fullPath path f t)))"
  using assms
  by (auto simp: uploadSingleFileWithTimeout_def uploadDoc_def file_validates_def
      upload_succeeds_def Let_def split: option.splits)

lemma generateCustomFilename_safe:
  assumes "safe_component slug" "safe_component fileType"
  shows "generateCustomFilename (getSecureExtension env) slug fileType f (Some (int index))
           (case validateFile env f of None \<Rightarrow> None | Some r \<Rightarrow> sanitizedName r) =
         Inr (expected_filename env slug fileType index f)"
  using assms sanitizePathComponent_Inr [of slug "''slug''" slug]
    sanitizePathComponent_Inr [of fileType "''fileType''" fileType]
  by (simp add: generateCustomFilename_def expected_filename_def string_of_int_nat
      split: option.splits)

lemma generateSlotPath_safe:
  assumes "safe_component documentId"
    and "case subPath of None \<Rightarrow> True | Some sp \<Rightarrow> sp = [] \<or> safe_component sp"
  shows "generateSlotPath config documentId name subPath =
         Inr (expected_path config documentId subPath name)"
  using assms sanitizePathComponent_Inr [of documentId "''documentId''" documentId]
    sanitizePathComponent_Inr [of "the subPath" "''subPath''" "the subPath"]
  by (auto simp: generateSlotPath_def expected_path_def split: option.splits)

text \<open>What the callback does, by cases.\<close>

lemma callback_null:
  "fst (slot_callback env config documentId slug fileType subPath startIndex index None store) =
     ReturnsNull"
  by (simp add: slot_callback_def)

lemma callback_invalid:
  assumes "\<not> file_validates env f"
  shows "\<exists>e. fst (slot_callback env config documentId slug fileType subPath startIndex index
                 (Some (f, t)) store) = PushesError e"
  using assms
  by (auto simp: slot_callback_def file_validates_def split: option.splits)

lemma callback_safe:
  assumes "file_validates env f" and "slot_arguments_safe documentId slug fileType subPath"
  shows "fst (slot_callback env config documentId slug fileType subPath startIndex index
            (Some (f, t)) store) =
         (case expected_slot env config documentId slug fileType subPath startIndex
                 (index, Some (f, t)) of
            Some slot \<Rightarrow> ReturnsSlot slot
          | None \<Rightarrow>
              PushesError (SlotUploadError (startIndex + index + 1)
                (projl (fst (uploadSingleFileWithTimeout env t f
                   (expected_path config documentId subPath (expected_filename env slug fileType index f))
                   15000 store)))))"
proof -
  obtain r where r: "validateFile env f = Some r" "resultIsValid r"
    using assms(1) by (auto simp: file_validates_def split: option.splits)
  have name: "generateCustomFilename (getSecureExtension env) slug fileType f (Some (int index))
       (sanitizedName r) = Inr (expected_filename env slug fileType index f)"
    using generateCustomFilename_safe [of slug fileType env f index] assms(2) r
    by (simp add: slot_arguments_safe_def)
  have path: "generateSlotPath config documentId (expected_filename env slug fileType index f) subPath =
      Inr (expected_path config documentId subPath (expected_filename env slug fileType index f))"
    using generateSlotPath_safe [of documentId subPath] assms(2)
    by (simp add: slot_arguments_safe_def)
  let ?p = "expected_path config documentId subPath (expected_filename env slug fileType index f)"
  obtain res st' where u: "uploadSingleFileWithTimeout env t f ?p 15000 store = (res, st')"
    by (cases "uploadSingleFileWithTimeout env t f ?p 15000 store")
  with upload_result [OF assms(1), of t ?p store]
  have res: "res = (if upload_succeeds env t f ?p
            then Inr (the (getDownloadURL env (uploadDoc_fullPath ?p f t)))
            else if exceedsTimeout env ?p 15000 then Inl (UploadTimeout 15000 ?p)
            else if currentUser env = None then Inl NotAuthenticated
            else Inl (StorageError (uploadDoc_fullPath ?p f t)))"
    by simp
  show ?thesis
  proof (cases "upload_succeeds env t f ?p")
    case True
    with res have "res = Inr (the (getDownloadURL env (uploadDoc_fullPath ?p f t)))" by simp
    with True assms(1) show ?thesis
      by (simp add: slot_callback_def r name path u expected_slot_def Let_def)
  next
    case False
    with res obtain e where "res = Inl e" by (auto split: if_splits)
    with False assms(1) show ?thesis
      by (simp add: slot_callback_def r name path u expected_slot_def Let_def)
  qed
qed

lemma callback_unsafe:
  assumes "file_validates env f" and "\<not> slot_arguments_safe documentId slug fileType subPath"
  shows "\<exists>e. fst (slot_callback env config documentId slug fileType subPath startIndex index
                 (Some (f, t)) store) = Throws e"
proof -
  obtain r where r: "validateFile env f = Some r" "resultIsValid r"
    using assms(1) by (auto simp: file_validates_def split: option.splits)
  show ?thesis
  proof (cases "generateCustomFilename (getSecureExtension env) slug fileType f (Some (int index))
       (sanitizedName r)")
    case (Inl e)
    then show ?thesis by (simp add: slot_callback_def r)
  next
    case (Inr name)
    then have sf: "safe_component slug \<and> safe_component fileType"
      using generateCustomFilename_Inr by blast
    with assms(2) have "\<not> safe_component documentId \<or>
        (subPath \<noteq> None \<and> subPath \<noteq> Some [] \<and> \<not> safe_component (the subPath))"
      by (auto simp: slot_arguments_safe_def split: option.splits)
    then have "isl (generateSlotPath config documentId name subPath)"
      by (simp add: generateSlotPath_isl)
    then obtain e where "generateSlotPath config documentId name subPath = Inl e"
      by (cases "generateSlotPath config documentId name subPath") auto
    with Inr show ?thesis by (simp add: slot_callback_def r)
  qed
qed


lemma expected_slot_invalid:
  "\<not> file_validates env f \<Longrightarrow>
   expected_slot env config documentId slug fileType subPath startIndex (index, Some (f, t)) = None"
  by (simp add: expected_slot_def Let_def)

lemma expected_slot_null:
  "expected_slot env config documentId slug fileType subPath startIndex (index, None) = None"
  by (simp add: expected_slot_def)

lemma slot_callbacks_Cons:
  "fst (slot_callbacks env config documentId slug fileType subPath startIndex index (file # files) store) =
     fst (slot_callback env config documentId slug fileType subPath startIndex index file store) #
     fst (slot_callbacks env config documentId slug fileType subPath startIndex (index + 1) files
            (snd (slot_callback env config documentId slug fileType subPath startIndex index file store)))"
  by (simp add: case_prod_beta Let_def)

declare slot_callbacks.simps(2) [simp del]

lemma throws_iff:
  "first_thrown (fst (slot_callbacks env config documentId slug fileType subPath startIndex index files store))
      \<noteq> None \<longleftrightarrow>
   \<not> slot_arguments_safe documentId slug fileType subPath \<and> some_file_validates env files"
proof (induction files arbitrary: index store)
  case Nil
  then show ?case by (simp add: some_file_validates_def)
next
  case (Cons fo files)
  let ?o = "fst (slot_callback env config documentId slug fileType subPath startIndex index fo store)"
  let ?st = "snd (slot_callback env config documentId slug fileType subPath startIndex index fo store)"
  note IH = Cons.IH [of "index + 1" ?st]
  show ?case
  proof (cases fo)
    case None
    then have "?o = ReturnsNull" by (simp add: callback_null)
    with IH None show ?thesis
      by (simp add: slot_callbacks_Cons some_file_validates_def)
  next
    case (Some tf)
    obtain f t where tf: "tf = (f, t)" by (cases tf)
    show ?thesis
    proof (cases "file_validates env f")
      case False
      with callback_invalid [of env f config documentId slug fileType subPath startIndex index t store]
      obtain e where "?o = PushesError e" using Some tf by auto
      with IH Some tf False show ?thesis
        by (simp add: slot_callbacks_Cons some_file_validates_def)
    next
      case valid: True
      show ?thesis
      proof (cases "slot_arguments_safe documentId slug fileType subPath")
        case True
        have "(\<exists>slot. ?o = ReturnsSlot slot) \<or> (\<exists>e. ?o = PushesError e)"
          using callback_safe [OF valid True, of config startIndex index t store] Some tf
          by (auto split: option.splits)
        with IH True show ?thesis
          by (auto simp: slot_callbacks_Cons)
      next
        case False
        with callback_unsafe [OF valid False, of config startIndex index t store]
        obtain e where "?o = Throws e" using Some tf by auto
        with False valid Some tf show ?thesis
          by (simp add: slot_callbacks_Cons some_file_validates_def)
      qed
    qed
  qed
qed

lemma slots_and_errors:
  assumes "slot_arguments_safe documentId slug fileType subPath \<or> \<not> some_file_validates env files"
  shows "returned_slots
           (fst (slot_callbacks env config documentId slug fileType subPath startIndex index files store)) =
         List.map_filter (expected_slot env config documentId slug fileType subPath startIndex)
           (enumerate index files) \<and>
         length (pushed_errors
           (fst (slot_callbacks env config documentId slug fileType subPath startIndex index files store))) =
         length (filter (\<lambda>entry. snd entry \<noteq> None \<and>
                    expected_slot env config documentId slug fileType subPath startIndex entry = None)
           (enumerate index files))"
  using assms
proof (induction files arbitrary: index store)
  case Nil
  then show ?case by simp
next
  case (Cons fo files)
  let ?o = "fst (slot_callback env config documentId slug fileType subPath startIndex index fo store)"
  let ?st = "snd (slot_callback env config documentId slug fileType subPath startIndex index fo store)"
  have "slot_arguments_safe documentId slug fileType subPath \<or> \<not> some_file_validates env files"
    using Cons.prems by (auto simp: some_file_validates_def)
  note IH = Cons.IH [OF this, of "index + 1" ?st]
  show ?case
  proof (cases fo)
    case None
    then have "?o = ReturnsNull" by (simp add: callback_null)
    with IH None show ?thesis
      by (simp add: slot_callbacks_Cons expected_slot_null)
  next
    case (Some tf)
    obtain f t where tf: "tf = (f, t)" by (cases tf)
    show ?thesis
    proof (cases "file_validates env f")
      case False
      with callback_invalid [of env f config documentId slug fileType subPath startIndex index t store]
      obtain e where "?o = PushesError e" using Some tf by auto
      with IH Some tf False show ?thesis
        by (simp add: slot_callbacks_Cons expected_slot_invalid)
    next
      case valid: True
      then have safe: "slot_arguments_safe documentId slug fileType subPath"
        using Cons.prems Some tf by (auto simp: some_file_validates_def)
      show ?thesis
      proof (cases "expected_slot env config documentId slug fileType subPath startIndex
                      (index, Some (f, t))")
        case None
        with callback_safe [OF valid safe, of config startIndex index t store]
        obtain e where "?o = PushesError e" using Some tf by auto
        with IH Some tf None show ?thesis
          by (simp add: slot_callbacks_Cons)
      next
        case (Some slot)
        with callback_safe [OF valid safe, of config startIndex index t store]
        have "?o = ReturnsSlot slot" using \<open>fo = Some tf\<close> tf by auto
        with IH \<open>fo = Some tf\<close> tf Some show ?thesis
          by (simp add: slot_callbacks_Cons)
      qed
    qed
  qed
qed

lemma map_filter_length_split:
  assumes "\<And>e. snd e = None \<Longrightarrow> f e = None"
  shows "length (List.map_filter f xs) + length (filter (\<lambda>e. snd e \<noteq> None \<and> f e = None) xs) =
         length (filter (\<lambda>e. snd e \<noteq> None) xs)"
  using assms by (induction xs) (auto split: option.splits)

lemma enumerate_non_null:
  "length (filter (\<lambda>e. snd e \<noteq> None) (enumerate n xs)) = length (filter (\<lambda>x. x \<noteq> None) xs)"
  by (induction xs arbitrary: n) auto

lemma expected_slot_snd_None:
  "snd e = None \<Longrightarrow> expected_slot env config documentId slug fileType subPath startIndex e = None"
  by (cases e) (simp add: expected_slot_def)

text \<open>
  C9 (as amended). \<^verbatim>\<open>uploadToSlots\<close> throws if and only if it is given more files than
  \<^verbatim>\<open>config.maxSlots\<close>, or some file validates while the slug, the fileType, the documentId
  or a non-empty subPath is not a safe path component (the filename and path are then
  generated outside the \<^verbatim>\<open>try\<close> blocks). When it returns, \<^verbatim>\<open>uploadedSlots\<close> holds, in the
  order of the files, exactly the expected slot of every file that validated and was
  uploaded, every other file that is not \<^verbatim>\<open>null\<close> has one entry in \<^verbatim>\<open>errors\<close>, and
  \<^verbatim>\<open>null\<close> entries are skipped.
\<close>

theorem C9_uploadToSlots_result:
  "(isl (fst (uploadToSlots env files config documentId slug fileType subPath startIndex store)) \<longleftrightarrow>
      maxSlots config < length files \<or>
      (some_file_validates env files \<and> \<not> slot_arguments_safe documentId slug fileType subPath)) \<and>
   (fst (uploadToSlots env files config documentId slug fileType subPath startIndex store) = Inr result
      \<longrightarrow>
      uploadedSlots result =
        List.map_filter (expected_slot env config documentId slug fileType subPath startIndex)
          (enumerate 0 files) \<and>
      length (errors result) =
        length (filter (\<lambda>entry. snd entry \<noteq> None \<and>
                   expected_slot env config documentId slug fileType subPath startIndex entry = None)
          (enumerate 0 files)) \<and>
      length (uploadedSlots result) + length (errors result) =
        length (filter (\<lambda>x. x \<noteq> None) files))"
proof (intro conjI impI)
  let ?os = "fst (slot_callbacks env config documentId slug fileType subPath startIndex 0 files store)"
  have r: "fst (uploadToSlots env files config documentId slug fileType subPath startIndex store) =
      (if maxSlots config < length files then Inl (TooManyFiles (length files) (maxSlots config))
       else case first_thrown ?os of
              Some e \<Rightarrow> Inl e
            | None \<Rightarrow> Inr \<lparr> uploadedSlots = returned_slots ?os, errors = pushed_errors ?os \<rparr>)"
    by (simp add: uploadToSlots_def case_prod_beta Let_def split: option.splits)
  show "isl (fst (uploadToSlots env files config documentId slug fileType subPath startIndex store)) \<longleftrightarrow>
      maxSlots config < length files \<or>
      (some_file_validates env files \<and> \<not> slot_arguments_safe documentId slug fileType subPath)"
    using throws_iff [of env config documentId slug fileType subPath startIndex 0 files store]
    by (auto simp: r split: option.splits)
  assume ok: "fst (uploadToSlots env files config documentId slug fileType subPath startIndex store) =
      Inr result"
  then have few: "\<not> maxSlots config < length files" and none: "first_thrown ?os = None"
    and res: "result = \<lparr> uploadedSlots = returned_slots ?os, errors = pushed_errors ?os \<rparr>"
    by (auto simp: r split: if_splits option.splits)
  from none have "slot_arguments_safe documentId slug fileType subPath \<or> \<not> some_file_validates env files"
    using throws_iff [of env config documentId slug fileType subPath startIndex 0 files store]
    by auto
  note se = slots_and_errors [OF this, of config startIndex 0 store]
  show slots: "uploadedSlots result =
        List.map_filter (expected_slot env config documentId slug fileType subPath startIndex)
          (enumerate 0 files)"
    using se res by simp
  show errs: "length (errors result) =
        length (filter (\<lambda>entry. snd entry \<noteq> None \<and>
                   expected_slot env config documentId slug fileType subPath startIndex entry = None)
          (enumerate 0 files))"
    using se res by simp
  show "length (uploadedSlots result) + length (errors result) =
        length (filter (\<lambda>x. x \<noteq> None) files)"
    unfolding slots errs
    by (simp only: enumerate_non_null
        map_filter_length_split [of "expected_slot env config documentId slug fileType subPath startIndex"
          "enumerate 0 files", OF expected_slot_snd_None])
qed

lemma string_of_nat_numeral:
  "string_of_nat (numeral k) =
     (if (numeral k :: nat) < 10 then [digit_char (numeral k)]
      else string_of_nat (numeral k div 10) @ [digit_char (numeral k mod 10)])"
  "string_of_nat 0 = ''0''"
  "string_of_nat 1 = ''1''"
  "string_of_nat (Suc 0) = ''1''"
  by (simp_all add: string_of_nat.simps [of "numeral k"] string_of_nat.simps [of 0]
       string_of_nat.simps [of 1] string_of_nat.simps [of "Suc 0"] digit_char_def)

lemmas eval_strings =
  string_of_nat_numeral digit_char_def replace_outside_def is_segment_char_def
  is_component_char_def is_alnum_def strip_extension_def last_dot_part_def

lemma upload_example:
  "fst (uploadToSlots accepting_env
     [Some (\<lparr> file_name = ''radio-720.webp'', file_type = ''image/webp'', file_bytes = [7] \<rparr>, 1000), None]
     productGallery ''p1'' ''radio'' ''photo'' None 0 Map.empty) =
   Inr \<lparr> uploadedSlots =
           [\<lparr> slot_index = 1, slot_path = ''portfolio/p1/radio_photo_1.webp'',
              slot_filename = ''radio_photo_1.webp'',
              slot_url = ''https://storage.example/portfolio/p1/radio_photo_1.webp/radio-720_1000.webp'' \<rparr>],
         errors = [] \<rparr>"
  by (simp add: uploadToSlots_def slot_callbacks.simps(2) slot_callback_def accepting_env_def productGallery_def
      generateCustomFilename_def generateSlotPath_def sanitizePathComponent_def
      uploadSingleFileWithTimeout_def uploadDoc_def uploadDoc_fullPath_def string_of_int_def
      eval_strings Let_def)

theorem C9_invalid_slug_counterexample:
  "\<not> maxSlots productGallery <
       length [Some (\<lparr> file_name = ''radio-720.webp'', file_type = ''image/webp'', file_bytes = [7] \<rparr>,
                 1000 :: nat)] \<and>
   fst (uploadToSlots accepting_env
     [Some (\<lparr> file_name = ''radio-720.webp'', file_type = ''image/webp'', file_bytes = [7] \<rparr>, 1000)]
     productGallery ''p1'' ''bad slug'' ''photo'' None 0 Map.empty) =
   Inl (InvalidCharacters ''slug'')"
  by (simp add: uploadToSlots_def slot_callbacks.simps(2) slot_callback_def accepting_env_def productGallery_def
      generateCustomFilename_def sanitizePathComponent_def eval_strings Let_def)


theorem C9_uploadToSlots_result_witness:
  "fst (uploadToSlots accepting_env
     [Some (\<lparr> file_name = ''radio-720.webp'', file_type = ''image/webp'', file_bytes = [7] \<rparr>, 1000), None]
     productGallery ''p1'' ''radio'' ''photo'' None 0 Map.empty) =
   Inr \<lparr> uploadedSlots =
           [\<lparr> slot_index = 1, slot_path = ''portfolio/p1/radio_photo_1.webp'',
              slot_filename = ''radio_photo_1.webp'',
              slot_url = ''https://storage.example/portfolio/p1/radio_photo_1.webp/radio-720_1000.webp'' \<rparr>],
         errors = [] \<rparr> \<and>
   List.map_filter (expected_slot accepting_env productGallery ''p1'' ''radio'' ''photo'' None 0)
     (enumerate 0
        [Some (\<lparr> file_name = ''radio-720.webp'', file_type = ''image/webp'', file_bytes = [7] \<rparr>, 1000),
         None]) =
     [\<lparr> slot_index = 1, slot_path = ''portfolio/p1/radio_photo_1.webp'',
        slot_filename = ''radio_photo_1.webp'',
        slot_url = ''https://storage.example/portfolio/p1/radio_photo_1.webp/radio-720_1000.webp'' \<rparr>] \<and>
   length (filter (\<lambda>x. x \<noteq> None)
     [Some (\<lparr> file_name = ''radio-720.webp'', file_type = ''image/webp'', file_bytes = [7] \<rparr>, 1000 :: nat),
      None]) = 1"
  using upload_example
    C9_uploadToSlots_result [where env = accepting_env and config = productGallery
      and documentId = "''p1''" and slug = "''radio''" and fileType = "''photo''"
      and subPath = None and startIndex = 0 and store = Map.empty
      and files = "[Some (\<lparr> file_name = ''radio-720.webp'', file_type = ''image/webp'',
                      file_bytes = [7] \<rparr>, 1000), None]"
      and result = "\<lparr> uploadedSlots =
           [\<lparr> slot_index = 1, slot_path = ''portfolio/p1/radio_photo_1.webp'',
              slot_filename = ''radio_photo_1.webp'',
              slot_url = ''https://storage.example/portfolio/p1/radio_photo_1.webp/radio-720_1000.webp'' \<rparr>],
         errors = [] \<rparr>"]
  by simp

lemma gallery_object_path:
  "uploadDoc_fullPath ''portfolio/p1/gallery/main/slot_1.webp''
     \<lparr> file_name = ''radio-720.webp'', file_type = ty, file_bytes = b \<rparr> 1700000000000 =
   ''portfolio/p1/gallery/main/slot_1.webp/radio-720_1700000000000.webp''"
  "uploadDoc_fullPath ''portfolio/p1/gallery/main/slot_1.webp''
     \<lparr> file_name = ''radio-720.webp'', file_type = ty, file_bytes = b \<rparr> 1700000060000 =
   ''portfolio/p1/gallery/main/slot_1.webp/radio-720_1700000060000.webp''"
  by (simp_all add: uploadDoc_fullPath_def eval_strings)

lemmas eval_gallery =
  uploadGallery_def sanitizePathComponent_def gallery_main_path_def
  uploadSingleFileWithTimeout_def uploadDoc_def accepting_env_def gallery_object_path
  eval_strings Let_def

text \<open>
  C3 at one upload. The gallery uploader names the slot path
  \<^verbatim>\<open>portfolio/p1/gallery/main/slot_1.webp\<close>; the object is stored one level below it, under
  a name made of the file's name and the clock value, and no object is stored at the slot
  path itself.
\<close>

theorem C3_object_is_stored_below_slot_path:
  "gallery_main_path ''p1'' 1 = ''portfolio/p1/gallery/main/slot_1.webp'' \<and>
   snd (uploadGallery accepting_env
     [(\<lparr> file_name = ''radio-720.webp'', file_type = ''image/webp'', file_bytes = [7] \<rparr>,
       1700000000000)] ''p1'' ''radio'' Map.empty) =
   Map.empty(''portfolio/p1/gallery/main/slot_1.webp/radio-720_1700000000000.webp'' \<mapsto>
     \<lparr> file_name = ''radio-720.webp'', file_type = ''image/webp'', file_bytes = [7] \<rparr>) \<and>
   snd (uploadGallery accepting_env
     [(\<lparr> file_name = ''radio-720.webp'', file_type = ''image/webp'', file_bytes = [7] \<rparr>,
       1700000000000)] ''p1'' ''radio'' Map.empty) ''portfolio/p1/gallery/main/slot_1.webp'' = None"
  by (simp add: eval_gallery)

text \<open>
  C1 at two uploads to the same slot. The same product, the same slot 1, the same MIME
  type and even the same file name, one minute apart: the two objects are written to two
  different paths, and the first is still there after the second.
\<close>

theorem C1_second_upload_does_not_overwrite:
  "snd (uploadGallery accepting_env
     [(\<lparr> file_name = ''radio-720.webp'', file_type = ''image/webp'', file_bytes = [8] \<rparr>,
       1700000060000)] ''p1'' ''radio''
     (snd (uploadGallery accepting_env
        [(\<lparr> file_name = ''radio-720.webp'', file_type = ''image/webp'', file_bytes = [7] \<rparr>,
          1700000000000)] ''p1'' ''radio'' Map.empty))) =
   Map.empty
     (''portfolio/p1/gallery/main/slot_1.webp/radio-720_1700000000000.webp'' \<mapsto>
        \<lparr> file_name = ''radio-720.webp'', file_type = ''image/webp'', file_bytes = [7] \<rparr>,
      ''portfolio/p1/gallery/main/slot_1.webp/radio-720_1700000060000.webp'' \<mapsto>
        \<lparr> file_name = ''radio-720.webp'', file_type = ''image/webp'', file_bytes = [8] \<rparr>)"
  by (simp add: eval_gallery)


section \<open>Form data without files\<close>












lemma cleaned_item_value:
  "\<not> is_array item \<Longrightarrow> \<not> is_file item \<Longrightarrow> cleaned_item item = cleaned_value item"
  by (cases item) (simp_all add: cleaned_item_def cleaned_value_def)






















end
